theory Spec2Isabelle
  imports Complex_Main
begin

section \<open>Subprocess lifecycle manager: mcp/process\_manager.py\<close>

text \<open>
  A shallow embedding of \<^verbatim>\<open>process_manager.py\<close>. The module keeps a global registry
  \<^verbatim>\<open>_services\<close> of \<^verbatim>\<open>ManagedService\<close> objects, each owning a \<^verbatim>\<open>subprocess.Popen\<close>
  handle, a bounded deque of log lines and an asyncio task that reads the child's output.
  Everything the module reaches outside itself (the process table, the clock, the task
  scheduler, what \<^verbatim>\<open>Popen\<close> does with a command line) is a field of one explicit
  state record, and every raise of the source is a value of type \<open>error\<close>.
\<close>

subsection \<open>Python values, dictionaries and errors\<close>

datatype pyval =
    PyNone
  | PyBool bool
  | PyInt int
  | PyFloat real
  | PyStr string
  | PyList "pyval list"

type_synonym pydict = "string \<rightharpoonup> pyval"

text \<open>
  \<open>ValueError\<close> is what \<^verbatim>\<open>_get\<close> raises for a name outside \<^verbatim>\<open>SERVICE_CONFIG\<close> (the
  specification's UnknownServiceError); \<open>KeyError\<close> is a failed subscript of
  \<^verbatim>\<open>SERVICE_CONFIG\<close>; \<open>OSError\<close> is raised by \<^verbatim>\<open>Popen\<close> when the executable cannot be
  launched and by \<^verbatim>\<open>send_signal\<close>; \<open>TimeoutError\<close> is \<^verbatim>\<open>asyncio.TimeoutError\<close>.
\<close>

datatype error = ValueError string | KeyError string | OSError | TimeoutError

subsection \<open>Static configuration\<close>

text \<open>Paths are written relative to \<^verbatim>\<open>REPO_ROOT\<close>.\<close>

record service_config =
  cwd :: string
  uvicorn :: string
  app :: string
  port :: int

definition SERVICE_CONFIG :: "string \<rightharpoonup> service_config" where
  "SERVICE_CONFIG =
     [''whisper'' \<mapsto> \<lparr>cwd = ''whisper'', uvicorn = ''whisper/venv/Scripts/uvicorn.exe'',
                      app = ''server:app'', port = 8100\<rparr>,
      ''tts'' \<mapsto> \<lparr>cwd = ''tts'', uvicorn = ''tts/venv/Scripts/uvicorn.exe'',
                  app = ''server:app'', port = 8200\<rparr>]"

definition LOG_BUFFER_SIZE :: nat where
  "LOG_BUFFER_SIZE = 500"

subsection \<open>The bounded deque\<close>

text \<open>
  \<^verbatim>\<open>deque(maxlen=n).append(x)\<close> adds \<open>x\<close> on the right and then, when the deque has
  grown beyond \<open>n\<close>, removes one element from the left.
\<close>

definition deque_append :: "nat \<Rightarrow> 'a list \<Rightarrow> 'a \<Rightarrow> 'a list" where
  "deque_append maxlen d x = (let d' = d @ [x] in if length d' > maxlen then tl d' else d')"

text \<open>
  \<^verbatim>\<open>xs[i:]\<close> for any integer \<open>i\<close>: a negative start counts from the end and is
  clipped at the front of the list.
\<close>

definition slice_from :: "int \<Rightarrow> 'a list \<Rightarrow> 'a list" where
  "slice_from i xs =
     (let n = int (length xs);
          j = (if i < 0 then max 0 (n + i) else min i n)
      in drop (nat j) xs)"

text \<open>\<^verbatim>\<open>s.rstrip("\n")\<close>: every trailing line feed is removed.\<close>

definition rstrip_nl :: "string \<Rightarrow> string" where
  "rstrip_nl s = rev (dropWhile (\<lambda>c. c = CHR 0x0A) (rev s))"

text \<open>\<^verbatim>\<open>str(n)\<close> on an integer: its decimal digits, with a sign when negative.\<close>

fun str_nat :: "nat \<Rightarrow> string" where
  "str_nat n =
     (if n < 10 then [char_of (48 + n)] else str_nat (n div 10) @ [char_of (48 + n mod 10)])"

declare str_nat.simps [simp del]

definition str :: "int \<Rightarrow> string" where
  "str i = (if i < 0 then CHR ''-'' # str_nat (nat (- i)) else str_nat (nat i))"

text \<open>
  \<^verbatim>\<open>round(x, 1)\<close>, with floats idealised as reals: the nearest multiple of one tenth,
  ties to the even one.
\<close>

definition round_half_even :: "real \<Rightarrow> int" where
  "round_half_even x =
     (let f = \<lfloor>x\<rfloor>; d = x - of_int f
      in if d < 1 / 2 then f else if 1 / 2 < d then f + 1 else if even f then f else f + 1)"

definition round1 :: "real \<Rightarrow> real" where
  "round1 x = of_int (round_half_even (x * 10)) / 10"

subsection \<open>Processes, tasks and the state\<close>

type_synonym handle = nat
type_synonym task_id = nat

text \<open>
  A \<^verbatim>\<open>Popen\<close> object together with what the operating system will do with its
  process. \<open>exited\<close> is \<^verbatim>\<open>poll() is not None\<close>. \<open>signal_raises\<close> says whether
  \<^verbatim>\<open>send_signal\<close> raises \<^verbatim>\<open>OSError\<close>. \<open>exit_delay\<close> is the number of seconds after
  which the process exits when it is waited for, \<open>None\<close> when it never exits by itself.
  \<open>stdout\<close> lists the results of the \<^verbatim>\<open>readline\<close> calls still to come on the output
  pipe, as decoded by \<^verbatim>\<open>decode("utf-8", errors="replace")\<close>, which maps the empty line
  and no other to the empty string; once exhausted, \<^verbatim>\<open>readline\<close> returns the empty
  line of end-of-stream.
\<close>

record popen =
  popen_pid :: int
  exited :: bool
  signal_raises :: bool
  exit_delay :: "real option"
  stdout :: "string list"

text \<open>
  The coroutine \<^verbatim>\<open>_log_reader(svc)\<close>: \<open>Created\<close> before its first step, \<open>Reading proc\<close>
  once it has bound its local \<^verbatim>\<open>proc = svc.process\<close>, \<open>Finished\<close> after returning and
  \<open>Cancelled\<close> after \<^verbatim>\<open>cancel()\<close>. \<open>task_svc\<close> is the record the coroutine was given.
\<close>

datatype task_state = Created | Reading handle | Finished | Cancelled

record task =
  task_svc :: string
  task_state :: task_state

record managed_service =
  name :: string
  process :: "handle option"
  logs :: "string list"
  started_at :: "real option"
  reader_task :: "task_id option"

datatype signal = CTRL_BREAK_EVENT | CTRL_C_EVENT | SIGTERM

text \<open>What the module did to the process table, in the order it did it.\<close>

datatype os_event =
    Spawn handle
  | SendSignal handle signal
  | WaitFor handle real
  | Kill handle
  | Wait handle

text \<open>
  \<open>services\<close> is the global \<^verbatim>\<open>_services\<close>. \<open>procs\<close> and \<open>tasks\<close> are the heaps of
  \<^verbatim>\<open>Popen\<close> objects and asyncio tasks, allocated at \<open>next_handle\<close> and \<open>next_task\<close>.
  \<open>now\<close> is \<^verbatim>\<open>time.time()\<close>. \<open>launch cmd dir\<close> is what \<^verbatim>\<open>Popen(cmd, cwd=dir)\<close> will do:
  \<open>None\<close> when it raises \<^verbatim>\<open>OSError\<close>, the new process otherwise.
\<close>

record state =
  services :: "string \<rightharpoonup> managed_service"
  procs :: "handle \<Rightarrow> popen"
  next_handle :: handle
  tasks :: "task_id \<Rightarrow> task"
  next_task :: task_id
  now :: real
  launch :: "string list \<Rightarrow> string \<Rightarrow> popen option"
  events :: "os_event list"

subsection \<open>ManagedService\<close>

definition ManagedService :: "string \<Rightarrow> managed_service" where
  "ManagedService nm =
     \<lparr>name = nm, process = None, logs = [], started_at = None, reader_task = None\<rparr>"

definition running :: "state \<Rightarrow> managed_service \<Rightarrow> bool" where
  "running s svc = (case process svc of None \<Rightarrow> False | Some h \<Rightarrow> \<not> exited (procs s h))"

definition pid :: "state \<Rightarrow> managed_service \<Rightarrow> int option" where
  "pid s svc = (case process svc of None \<Rightarrow> None | Some h \<Rightarrow> Some (popen_pid (procs s h)))"

text \<open>\<^verbatim>\<open>if self.started_at and self.running\<close>: a start time of \<open>0.0\<close> is falsy.\<close>

definition uptime_seconds :: "state \<Rightarrow> managed_service \<Rightarrow> real option" where
  "uptime_seconds s svc =
     (case started_at svc of
        None \<Rightarrow> None
      | Some t \<Rightarrow> if t \<noteq> 0 \<and> running s svc then Some (round1 (now s - t)) else None)"

definition status_dict :: "state \<Rightarrow> managed_service \<Rightarrow> error + pydict" where
  "status_dict s svc =
     (case SERVICE_CONFIG (name svc) of
        None \<Rightarrow> Inl (KeyError (name svc))
      | Some cfg \<Rightarrow>
          Inr [''service'' \<mapsto> PyStr (name svc),
               ''running'' \<mapsto> PyBool (running s svc),
               ''pid'' \<mapsto> (case pid s svc of None \<Rightarrow> PyNone | Some p \<Rightarrow> PyInt p),
               ''port'' \<mapsto> PyInt (port cfg),
               ''uptime_seconds'' \<mapsto>
                  (case uptime_seconds s svc of None \<Rightarrow> PyNone | Some u \<Rightarrow> PyFloat u)])"

text \<open>\<^verbatim>\<open>{**svc.status_dict(), "message": m}\<close>; an exception of \<^verbatim>\<open>status_dict\<close> propagates.\<close>

definition with_message :: "error + pydict \<Rightarrow> string \<Rightarrow> error + pydict" where
  "with_message r m = (case r of Inl e \<Rightarrow> Inl e | Inr d \<Rightarrow> Inr (d(''message'' \<mapsto> PyStr m)))"

subsection \<open>The registry\<close>

text \<open>
  \<^verbatim>\<open>_get\<close> (an identifier cannot begin with an underscore here, so \<^verbatim>\<open>_get\<close>,
  \<^verbatim>\<open>_services\<close>, \<^verbatim>\<open>_reader_task\<close> and \<^verbatim>\<open>_log_reader\<close> lose theirs): the name is checked
  against \<^verbatim>\<open>SERVICE_CONFIG\<close> before the registry is touched; a known name without a
  record gets a fresh one.
\<close>

definition get :: "string \<Rightarrow> state \<Rightarrow> (error + managed_service) \<times> state" where
  "get nm s =
     (if SERVICE_CONFIG nm = None then (Inl (ValueError nm), s)
      else case services s nm of
             None \<Rightarrow> (Inr (ManagedService nm), s\<lparr>services := (services s)(nm \<mapsto> ManagedService nm)\<rparr>)
           | Some svc \<Rightarrow> (Inr svc, s))"

text \<open>Assignments to attributes of the record registered under \<open>nm\<close>.\<close>

definition set_svc :: "string \<Rightarrow> managed_service \<Rightarrow> state \<Rightarrow> state" where
  "set_svc nm svc s = s\<lparr>services := (services s)(nm \<mapsto> svc)\<rparr>"

subsection \<open>The log reader\<close>

text \<open>
  One scheduling step of the coroutine \<^verbatim>\<open>_log_reader(svc)\<close> running as task \<open>t\<close>. Its
  first step binds \<^verbatim>\<open>proc = svc.process\<close> and returns at once when there is none; every
  later step is one \<^verbatim>\<open>readline\<close>: the empty line ends the task, any other line is
  appended to \<^verbatim>\<open>svc.logs\<close> with its trailing line feeds stripped. A task that is done
  takes no step.
\<close>

definition log_reader_step :: "task_id \<Rightarrow> state \<Rightarrow> state" where
  "log_reader_step t s =
     (let tk = tasks s t in
      case task_state tk of
        Created \<Rightarrow>
          (case services s (task_svc tk) of
             None \<Rightarrow> s
           | Some svc \<Rightarrow>
               (case process svc of
                  None \<Rightarrow> s\<lparr>tasks := (tasks s)(t := tk\<lparr>task_state := Finished\<rparr>)\<rparr>
                | Some proc \<Rightarrow> s\<lparr>tasks := (tasks s)(t := tk\<lparr>task_state := Reading proc\<rparr>)\<rparr>))
      | Reading proc \<Rightarrow>
          (case stdout (procs s proc) of
             [] \<Rightarrow> s\<lparr>tasks := (tasks s)(t := tk\<lparr>task_state := Finished\<rparr>)\<rparr>
           | line # rest \<Rightarrow>
               if line = [] then s\<lparr>tasks := (tasks s)(t := tk\<lparr>task_state := Finished\<rparr>)\<rparr>
               else
                 (case services s (task_svc tk) of
                    None \<Rightarrow> s
                  | Some svc \<Rightarrow>
                      s\<lparr>procs := (procs s)(proc := (procs s proc)\<lparr>stdout := rest\<rparr>),
                        services := (services s)(task_svc tk \<mapsto>
                          svc\<lparr>logs := deque_append LOG_BUFFER_SIZE (logs svc) (rstrip_nl line)\<rparr>)\<rparr>))
      | Finished \<Rightarrow> s
      | Cancelled \<Rightarrow> s)"

text \<open>
  The \<^verbatim>\<open>while True\<close> loop of \<^verbatim>\<open>_log_reader\<close> on the buffer alone: \<open>lines\<close> are the
  results of the successive \<^verbatim>\<open>readline\<close> calls, and the loop breaks at the first empty
  one or when the stream is exhausted.
\<close>

fun log_reader :: "string list \<Rightarrow> string list \<Rightarrow> string list" where
  "log_reader [] buf = buf"
| "log_reader (line # rest) buf =
     (if line = [] then buf
      else log_reader rest (deque_append LOG_BUFFER_SIZE buf (rstrip_nl line)))"

subsection \<open>Tasks\<close>

definition create_task :: "string \<Rightarrow> state \<Rightarrow> task_id \<times> state" where
  "create_task nm s =
     (next_task s,
      s\<lparr>tasks := (tasks s)(next_task s := \<lparr>task_svc = nm, task_state = Created\<rparr>),
        next_task := Suc (next_task s)\<rparr>)"

definition done_task :: "state \<Rightarrow> task_id \<Rightarrow> bool" where
  "done_task s t = (task_state (tasks s t) = Finished \<or> task_state (tasks s t) = Cancelled)"

definition cancel :: "task_id \<Rightarrow> state \<Rightarrow> state" where
  "cancel t s =
     (if done_task s t then s
      else s\<lparr>tasks := (tasks s)(t := (tasks s t)\<lparr>task_state := Cancelled\<rparr>)\<rparr>)"

subsection \<open>Process primitives\<close>

text \<open>\<^verbatim>\<open>subprocess.Popen(cmd, cwd=dir, ...)\<close>: raises, or allocates a new handle.\<close>

definition Popen :: "string list \<Rightarrow> string \<Rightarrow> state \<Rightarrow> (error + handle) \<times> state" where
  "Popen cmd dir s =
     (case launch s cmd dir of
        None \<Rightarrow> (Inl OSError, s)
      | Some p \<Rightarrow>
          (Inr (next_handle s),
           s\<lparr>procs := (procs s)(next_handle s := p),
             next_handle := Suc (next_handle s),
             events := events s @ [Spawn (next_handle s)]\<rparr>))"

definition send_signal :: "handle \<Rightarrow> signal \<Rightarrow> state \<Rightarrow> (error + unit) \<times> state" where
  "send_signal h sig s =
     (let s' = s\<lparr>events := events s @ [SendSignal h sig]\<rparr>
      in if signal_raises (procs s h) then (Inl OSError, s') else (Inr (), s'))"

text \<open>
  \<^verbatim>\<open>await asyncio.wait_for(loop.run_in_executor(None, proc.wait), timeout)\<close>: returns
  when the process exits before the timeout, raises \<^verbatim>\<open>TimeoutError\<close> otherwise. A
  process that needs exactly the timeout counts as too late.
\<close>

definition wait_for :: "handle \<Rightarrow> real \<Rightarrow> state \<Rightarrow> (error + unit) \<times> state" where
  "wait_for h timeout s =
     (let p = procs s h;
          s' = s\<lparr>events := events s @ [WaitFor h timeout]\<rparr>
      in if exited p then (Inr (), s')
         else case exit_delay p of
                None \<Rightarrow> (Inl TimeoutError, s'\<lparr>now := now s' + timeout\<rparr>)
              | Some d \<Rightarrow>
                  if d < timeout
                  then (Inr (), s'\<lparr>procs := (procs s')(h := p\<lparr>exited := True\<rparr>), now := now s' + d\<rparr>)
                  else (Inl TimeoutError, s'\<lparr>now := now s' + timeout\<rparr>))"

text \<open>\<^verbatim>\<open>proc.kill()\<close>: forced termination; the process then exits without delay.\<close>

definition kill :: "handle \<Rightarrow> state \<Rightarrow> state" where
  "kill h s =
     s\<lparr>procs := (procs s)(h := (procs s h)\<lparr>exit_delay := Some 0\<rparr>),
       events := events s @ [Kill h]\<rparr>"

text \<open>
  \<^verbatim>\<open>await loop.run_in_executor(None, proc.wait)\<close> without a timeout: \<open>None\<close> when the
  process never exits, so that the call never returns.
\<close>

definition wait :: "handle \<Rightarrow> state \<Rightarrow> state option" where
  "wait h s =
     (let p = procs s h;
          s' = s\<lparr>events := events s @ [Wait h]\<rparr>
      in if exited p then Some s'
         else case exit_delay p of
                None \<Rightarrow> None
              | Some d \<Rightarrow> Some (s'\<lparr>procs := (procs s')(h := p\<lparr>exited := True\<rparr>), now := now s' + d\<rparr>))"

subsection \<open>start, stop, restart, status, view\_logs\<close>

definition start :: "string \<Rightarrow> state \<Rightarrow> (error + pydict) \<times> state" where
  "start nm s =
     (case get nm s of
        (Inl e, s1) \<Rightarrow> (Inl e, s1)
      | (Inr svc, s1) \<Rightarrow>
          if running s1 svc then (with_message (status_dict s1 svc) ''Already running'', s1)
          else
            (case SERVICE_CONFIG nm of
               None \<Rightarrow> (Inl (KeyError nm), s1)
             | Some cfg \<Rightarrow>
                 let cmd = [uvicorn cfg, app cfg, ''--host'', ''0.0.0.0'', ''--port'', str (port cfg)];
                     svc2 = svc\<lparr>logs := []\<rparr>;
                     s2 = set_svc nm svc2 s1
                 in (case Popen cmd (cwd cfg) s2 of
                       (Inl e, s3) \<Rightarrow> (Inl e, s3)
                     | (Inr proc, s3) \<Rightarrow>
                         let svc4 = svc2\<lparr>process := Some proc, started_at := Some (now s3)\<rparr>;
                             s4 = set_svc nm svc4 s3;
                             (t, s5) = create_task nm s4;
                             svc6 = svc4\<lparr>reader_task := Some t\<rparr>;
                             s6 = set_svc nm svc6 s5
                         in (with_message (status_dict s6 svc6) ''Started'', s6))))"

text \<open>
  \<^verbatim>\<open>stop\<close> is a coroutine; it is modelled as running without interleaving. \<open>None\<close>
  is a call that never returns. \<open>the (process svc)\<close> is read only where \<open>running\<close>
  has just established that there is a handle.
\<close>

definition stop :: "string \<Rightarrow> state \<Rightarrow> ((error + pydict) \<times> state) option" where
  "stop nm s =
     (case get nm s of
        (Inl e, s1) \<Rightarrow> Some (Inl e, s1)
      | (Inr svc, s1) \<Rightarrow>
          if \<not> running s1 svc then Some (with_message (status_dict s1 svc) ''Not running'', s1)
          else
            let proc = the (process svc);
                s2 = snd (send_signal proc CTRL_BREAK_EVENT s1)
            in (case (case wait_for proc 10 s2 of
                        (Inr u, s3) \<Rightarrow> Some s3
                      | (Inl e, s3) \<Rightarrow> wait proc (kill proc s3)) of
                  None \<Rightarrow> None
                | Some s4 \<Rightarrow>
                    let s5 = (case reader_task svc of
                                None \<Rightarrow> s4
                              | Some t \<Rightarrow> if \<not> done_task s4 t then cancel t s4 else s4)
                    in Some (with_message (status_dict s5 svc) ''Stopped'', s5)))"

definition restart :: "string \<Rightarrow> state \<Rightarrow> ((error + pydict) \<times> state) option" where
  "restart nm s =
     (case stop nm s of
        None \<Rightarrow> None
      | Some (Inl e, s1) \<Rightarrow> Some (Inl e, s1)
      | Some (Inr d, s1) \<Rightarrow> Some (start nm s1))"

definition status :: "string \<Rightarrow> state \<Rightarrow> (error + pydict) \<times> state" where
  "status nm s =
     (case get nm s of
        (Inl e, s1) \<Rightarrow> (Inl e, s1)
      | (Inr svc, s1) \<Rightarrow> (status_dict s1 svc, s1))"

definition view_logs :: "string \<Rightarrow> int \<Rightarrow> state \<Rightarrow> (error + pydict) \<times> state" where
  "view_logs nm lines s =
     (case get nm s of
        (Inl e, s1) \<Rightarrow> (Inl e, s1)
      | (Inr svc, s1) \<Rightarrow>
          let lines' = max 1 (min lines (int LOG_BUFFER_SIZE));
              recent = slice_from (- lines') (logs svc)
          in (Inr [''service'' \<mapsto> PyStr nm,
                   ''lines_requested'' \<mapsto> PyInt lines',
                   ''lines_returned'' \<mapsto> PyInt (int (length recent)),
                   ''logs'' \<mapsto> PyList (map PyStr recent)],
              s1))"

subsection \<open>Observations on results\<close>

text \<open>
  What is left of the record registered under \<open>nm\<close> once a call has returned \<open>r\<close>.
\<close>

definition record_after :: "string \<Rightarrow> ((error + pydict) \<times> state) option \<Rightarrow> managed_service option" where
  "record_after nm r = (case r of None \<Rightarrow> None | Some (res, s') \<Rightarrow> services s' nm)"

text \<open>The state of task \<open>t\<close> once a call has returned \<open>r\<close>.\<close>

definition task_after :: "task_id \<Rightarrow> ((error + pydict) \<times> state) option \<Rightarrow> task_state option" where
  "task_after t r = (case r of None \<Rightarrow> None | Some (res, s') \<Rightarrow> Some (task_state (tasks s' t)))"

text \<open>The value a returned dictionary has under key \<open>k\<close>, if the call returned one.\<close>

definition snapshot_field :: "string \<Rightarrow> error + pydict \<Rightarrow> pyval option" where
  "snapshot_field k r = (case r of Inl e \<Rightarrow> None | Inr d \<Rightarrow> d k)"

text \<open>
  The five fields every status dictionary carries, with the types the specification gives
  them: \<open>service\<close> a string, \<open>running\<close> a boolean, \<open>pid\<close> an integer or null,
  \<open>port\<close> an integer, \<open>uptime_seconds\<close> a float or null.
\<close>

definition status_fields :: "pydict \<Rightarrow> bool" where
  "status_fields d =
     ((case d ''service'' of Some (PyStr x) \<Rightarrow> True | _ \<Rightarrow> False) \<and>
      (case d ''running'' of Some (PyBool b) \<Rightarrow> True | _ \<Rightarrow> False) \<and>
      (case d ''pid'' of Some (PyInt i) \<Rightarrow> True | Some PyNone \<Rightarrow> True | _ \<Rightarrow> False) \<and>
      (case d ''port'' of Some (PyInt i) \<Rightarrow> True | _ \<Rightarrow> False) \<and>
      (case d ''uptime_seconds'' of Some (PyFloat u) \<Rightarrow> True | Some PyNone \<Rightarrow> True | _ \<Rightarrow> False))"

subsection \<open>The registry invariant\<close>

text \<open>
  What holds of the registry in every state the module can reach: each record is
  registered under its own name, that name is configured, and its buffer is within
  capacity. The initial state satisfies it and every operation keeps it, as is proved
  below; the properties that assume a record carries the name it is registered under
  assume no more than this.
\<close>

definition wf :: "state \<Rightarrow> bool" where
  "wf s = (\<forall>nm svc. services s nm = Some svc \<longrightarrow>
             name svc = nm \<and> SERVICE_CONFIG nm \<noteq> None \<and> length (logs svc) \<le> LOG_BUFFER_SIZE)"

subsection \<open>The environment\<close>

text \<open>
  The operating system's side of a crash: process \<open>h\<close> exits by itself. Output it has
  already written stays in the pipe.
\<close>

definition proc_exits :: "handle \<Rightarrow> state \<Rightarrow> state" where
  "proc_exits h s = s\<lparr>procs := (procs s)(h := (procs s h)\<lparr>exited := True\<rparr>)\<rparr>"

subsection \<open>Concrete states\<close>

text \<open>
  The module right after import: an empty registry, no process, no task. \<open>l\<close> is what
  the operating system will do with a command line and \<open>t\<close> the clock.
\<close>

definition no_process :: popen where
  "no_process = \<lparr>popen_pid = 0, exited = True, signal_raises = False, exit_delay = None, stdout = []\<rparr>"

definition initial :: "(string list \<Rightarrow> string \<Rightarrow> popen option) \<Rightarrow> real \<Rightarrow> state" where
  "initial l t =
     \<lparr>services = Map.empty, procs = (\<lambda>h. no_process), next_handle = 0,
      tasks = (\<lambda>t. \<lparr>task_svc = [], task_state = Finished\<rparr>), next_task = 0,
      now = t, launch = l, events = []\<rparr>"

text \<open>The module right after import, on a host where nothing can be launched.\<close>

definition no_launch :: "string list \<Rightarrow> string \<Rightarrow> popen option" where
  "no_launch cmd dir = None"

definition demo_idle :: state where
  "demo_idle = initial no_launch 1000"

text \<open>
  A child that exits two seconds into the wait, although signalling it raises, and that
  has written one line. \<open>demo_running\<close> is the state after the first start of whisper
  on a host that launches it.
\<close>

definition demo_proc :: popen where
  "demo_proc = \<lparr>popen_pid = 4242, exited = False, signal_raises = True, exit_delay = Some 2,
                 stdout = [''ready'']\<rparr>"

definition demo_running :: state where
  "demo_running = snd (start ''whisper'' (initial (\<lambda>cmd dir. Some demo_proc) 1000))"

text \<open>
  A child that never exits by itself, and the state after the first start of tts on a
  host that launches it.
\<close>

definition stubborn_proc :: popen where
  "stubborn_proc = \<lparr>popen_pid = 777, exited = False, signal_raises = False, exit_delay = None,
                     stdout = []\<rparr>"

definition demo_stubborn :: state where
  "demo_stubborn = snd (start ''tts'' (initial (\<lambda>cmd dir. Some stubborn_proc) 1000))"

text \<open>
  After the first start of whisper the reader task takes its first step, binding process
  0, and then the process exits by itself before the reader has read its output.
\<close>

definition demo_crashed :: state where
  "demo_crashed = proc_exits 0 (log_reader_step 0 demo_running)"

text \<open>A registry whose whisper record holds three log lines.\<close>

definition demo_logged :: state where
  "demo_logged =
     (initial (\<lambda>cmd dir. None) 1000)
       \<lparr>services := [''whisper'' \<mapsto> (ManagedService ''whisper'')\<lparr>logs := [''one'', ''two'', ''three'']\<rparr>]\<rparr>"

section \<open>Auxiliary facts\<close>

subsection \<open>The registry\<close>

lemma get_unknown: "SERVICE_CONFIG nm = None \<Longrightarrow> get nm s = (Inl (ValueError nm), s)"
  by (simp add: get_def)

lemma get_known:
  "SERVICE_CONFIG nm \<noteq> None \<Longrightarrow> services s nm = Some svc \<Longrightarrow> get nm s = (Inr svc, s)"
  by (simp add: get_def)

lemma get_fresh:
  "SERVICE_CONFIG nm \<noteq> None \<Longrightarrow> services s nm = None \<Longrightarrow>
     get nm s = (Inr (ManagedService nm), set_svc nm (ManagedService nm) s)"
  by (simp add: get_def set_svc_def)

lemma get_cases:
  obtains (unknown) "SERVICE_CONFIG nm = None" "get nm s = (Inl (ValueError nm), s)"
  | (fresh) "SERVICE_CONFIG nm \<noteq> None" "services s nm = None"
      "get nm s = (Inr (ManagedService nm), set_svc nm (ManagedService nm) s)"
  | (existing) svc where "SERVICE_CONFIG nm \<noteq> None" "services s nm = Some svc"
      "get nm s = (Inr svc, s)"
  by (cases "SERVICE_CONFIG nm"; cases "services s nm") (auto simp add: get_def set_svc_def)

lemma get_result:
  assumes "get nm s = (Inr svc, s1)"
  shows "SERVICE_CONFIG nm \<noteq> None" and "services s1 nm = Some svc"
    and "s1 = set_svc nm svc s"
  using assms by (auto simp add: get_def set_svc_def fun_upd_idem split: if_splits option.splits)

subsection \<open>Status dictionaries\<close>

lemma with_message_status_dict:
  "SERVICE_CONFIG (name svc) = Some cfg \<Longrightarrow>
   with_message (status_dict s svc) m =
     Inr [''service'' \<mapsto> PyStr (name svc),
          ''running'' \<mapsto> PyBool (running s svc),
          ''pid'' \<mapsto> (case pid s svc of None \<Rightarrow> PyNone | Some p \<Rightarrow> PyInt p),
          ''port'' \<mapsto> PyInt (port cfg),
          ''uptime_seconds'' \<mapsto>
             (case uptime_seconds s svc of None \<Rightarrow> PyNone | Some u \<Rightarrow> PyFloat u),
          ''message'' \<mapsto> PyStr m]"
  by (simp add: with_message_def status_dict_def)

lemma with_message_fields:
  assumes "with_message (status_dict s svc) m = Inr d"
  shows "d ''pid'' = Some (case pid s svc of None \<Rightarrow> PyNone | Some p \<Rightarrow> PyInt p)"
    and "d ''running'' = Some (PyBool (running s svc))"
    and "d ''message'' = Some (PyStr m)"
    and "d ''service'' = Some (PyStr (name svc))"
    and "dom d = {''service'', ''running'', ''pid'', ''port'', ''uptime_seconds'', ''message''}"
proof -
  from assms obtain cfg where cfg: "SERVICE_CONFIG (name svc) = Some cfg"
    by (cases "SERVICE_CONFIG (name svc)") (auto simp add: with_message_def status_dict_def)
  from assms have d: "d = [''service'' \<mapsto> PyStr (name svc),
          ''running'' \<mapsto> PyBool (running s svc),
          ''pid'' \<mapsto> (case pid s svc of None \<Rightarrow> PyNone | Some p \<Rightarrow> PyInt p),
          ''port'' \<mapsto> PyInt (port cfg),
          ''uptime_seconds'' \<mapsto>
             (case uptime_seconds s svc of None \<Rightarrow> PyNone | Some u \<Rightarrow> PyFloat u),
          ''message'' \<mapsto> PyStr m]"
    by (simp add: with_message_status_dict [OF cfg])
  show "d ''pid'' = Some (case pid s svc of None \<Rightarrow> PyNone | Some p \<Rightarrow> PyInt p)"
    and "d ''running'' = Some (PyBool (running s svc))"
    and "d ''message'' = Some (PyStr m)"
    and "d ''service'' = Some (PyStr (name svc))"
    unfolding d by simp_all
  show "dom d = {''service'', ''running'', ''pid'', ''port'', ''uptime_seconds'', ''message''}"
    unfolding d by (simp add: insert_commute)
qed

lemma status_dict_fields:
  assumes "status_dict s svc = Inr d"
  shows "status_fields d"
    and "dom d = {''service'', ''running'', ''pid'', ''port'', ''uptime_seconds''}"
    and "d ''message'' = None"
proof -
  from assms obtain cfg where cfg: "SERVICE_CONFIG (name svc) = Some cfg"
    by (cases "SERVICE_CONFIG (name svc)") (auto simp add: status_dict_def)
  from assms have d: "d = [''service'' \<mapsto> PyStr (name svc),
          ''running'' \<mapsto> PyBool (running s svc),
          ''pid'' \<mapsto> (case pid s svc of None \<Rightarrow> PyNone | Some p \<Rightarrow> PyInt p),
          ''port'' \<mapsto> PyInt (port cfg),
          ''uptime_seconds'' \<mapsto>
             (case uptime_seconds s svc of None \<Rightarrow> PyNone | Some u \<Rightarrow> PyFloat u)]"
    by (simp add: status_dict_def cfg)
  show "status_fields d"
    unfolding d status_fields_def by (simp split: option.splits)
  show "dom d = {''service'', ''running'', ''pid'', ''port'', ''uptime_seconds''}"
    unfolding d by (simp add: insert_commute)
  show "d ''message'' = None"
    unfolding d by simp
qed

lemma with_message_snapshot:
  assumes "with_message (status_dict s svc) m = Inr d"
  shows "status_fields d \<and>
         dom d = {''service'', ''running'', ''pid'', ''port'', ''uptime_seconds'', ''message''} \<and>
         d ''message'' = Some (PyStr m)"
proof -
  from assms obtain d0 where d0: "status_dict s svc = Inr d0" and d: "d = d0(''message'' \<mapsto> PyStr m)"
    by (cases "status_dict s svc") (auto simp add: with_message_def)
  have "status_fields d"
    using status_dict_fields(1) [OF d0] unfolding d status_fields_def by simp
  with with_message_fields(3,5) [OF assms] show ?thesis by simp
qed

subsection \<open>The bounded deque and slices\<close>

lemma deque_append_length:
  "length d \<le> n \<Longrightarrow> length (deque_append n d x) \<le> n"
  by (simp add: deque_append_def Let_def)

lemma deque_append_drop:
  assumes "length d \<le> n"
  shows "deque_append n d x = drop (length (d @ [x]) - n) (d @ [x])"
proof (cases "length d = n")
  case True
  then have "length (d @ [x]) - n = Suc 0" by simp
  then have "drop (length (d @ [x]) - n) (d @ [x]) = tl (d @ [x])"
    by (simp only: drop_Suc drop_0)
  with True show ?thesis by (simp add: deque_append_def Let_def)
next
  case False
  with assms show ?thesis by (simp add: deque_append_def Let_def)
qed

lemma drop_window:
  "drop (length (drop (length xs - n) xs @ ys) - n) (drop (length xs - n) xs @ ys) =
   drop (length (xs @ ys) - n) (xs @ ys)"
proof (cases "length xs \<le> n")
  case True
  then show ?thesis by simp
next
  case False
  then have k: "length xs - n + length ys = length xs + length ys - n" by simp
  have "drop (length (xs @ ys) - n) (xs @ ys) = drop (length ys + (length xs - n)) (xs @ ys)"
    using k by (simp add: add.commute)
  also have "\<dots> = drop (length ys) (drop (length xs - n) (xs @ ys))"
    by (simp only: drop_drop)
  also have "\<dots> = drop (length ys) (drop (length xs - n) xs @ ys)"
    by simp
  finally show ?thesis using False by simp
qed

lemma log_reader_window:
  "length buf \<le> LOG_BUFFER_SIZE \<Longrightarrow>
   log_reader lines buf =
     drop (length (buf @ map rstrip_nl (takeWhile (\<lambda>l. l \<noteq> []) lines)) - LOG_BUFFER_SIZE)
          (buf @ map rstrip_nl (takeWhile (\<lambda>l. l \<noteq> []) lines))"
proof (induction lines arbitrary: buf)
  case Nil
  then show ?case by simp
next
  case (Cons line rest)
  show ?case
  proof (cases "line = []")
    case True
    with Cons.prems show ?thesis by simp
  next
    case False
    let ?b = "deque_append LOG_BUFFER_SIZE buf (rstrip_nl line)"
    let ?w = "map rstrip_nl (takeWhile (\<lambda>l. l \<noteq> []) rest)"
    let ?xs = "buf @ [rstrip_nl line]"
    have len: "length ?b \<le> LOG_BUFFER_SIZE"
      using Cons.prems by (rule deque_append_length)
    have b: "?b = drop (length ?xs - LOG_BUFFER_SIZE) ?xs"
      using Cons.prems by (rule deque_append_drop)
    have "log_reader (line # rest) buf = log_reader rest ?b"
      using False by simp
    also have "\<dots> = drop (length (?b @ ?w) - LOG_BUFFER_SIZE) (?b @ ?w)"
      using len by (rule Cons.IH)
    also have "\<dots> = drop (length (?xs @ ?w) - LOG_BUFFER_SIZE) (?xs @ ?w)"
      unfolding b by (rule drop_window)
    finally show ?thesis using False by simp
  qed
qed

lemma slice_from_last:
  "1 \<le> k \<Longrightarrow> slice_from (- k) xs = drop (length xs - min (nat k) (length xs)) xs"
  by (auto simp add: slice_from_def Let_def min_def max_def nat_diff_distrib)

lemma length_slice_from_last:
  "1 \<le> k \<Longrightarrow> length (slice_from (- k) xs) = min (nat k) (length xs)"
  by (simp add: slice_from_last)

subsection \<open>The paths through start\<close>

text \<open>The state and the record that start leaves behind when it spawns process \<open>p\<close>.\<close>

lemma start_spawned:
  assumes g: "get nm s = (Inr svc, s1)"
    and nr: "\<not> running s1 svc"
    and cfg: "SERVICE_CONFIG nm = Some cfg"
    and l: "launch s1 [uvicorn cfg, app cfg, ''--host'', ''0.0.0.0'', ''--port'', str (port cfg)]
              (cwd cfg) = Some p"
    and svc6: "svc6 = svc\<lparr>process := Some (next_handle s1), logs := [],
                 started_at := Some (now s1), reader_task := Some (next_task s1)\<rparr>"
    and s6: "s6 = s1\<lparr>services := (services s1)(nm \<mapsto> svc6),
                 procs := (procs s1)(next_handle s1 := p),
                 next_handle := Suc (next_handle s1),
                 tasks := (tasks s1)(next_task s1 := \<lparr>task_svc = nm, task_state = Created\<rparr>),
                 next_task := Suc (next_task s1),
                 events := events s1 @ [Spawn (next_handle s1)]\<rparr>"
  shows "start nm s = (with_message (status_dict s6 svc6) ''Started'', s6)"
  unfolding start_def g svc6 s6 using nr cfg l
  by (cases s1; cases svc) (simp add: set_svc_def Popen_def create_task_def Let_def)

lemma start_spawn_fails:
  assumes g: "get nm s = (Inr svc, s1)"
    and nr: "\<not> running s1 svc"
    and cfg: "SERVICE_CONFIG nm = Some cfg"
    and l: "launch s1 [uvicorn cfg, app cfg, ''--host'', ''0.0.0.0'', ''--port'', str (port cfg)]
              (cwd cfg) = None"
  shows "start nm s = (Inl OSError, set_svc nm (svc\<lparr>logs := []\<rparr>) s1)"
  unfolding start_def g using nr cfg l
  by (simp add: set_svc_def Popen_def Let_def)

lemma start_running:
  assumes g: "get nm s = (Inr svc, s1)" and r: "running s1 svc"
  shows "start nm s = (with_message (status_dict s1 svc) ''Already running'', s1)"
  unfolding start_def g using r by simp

lemma start_cases [consumes 1, case_names unknown running failed spawned]:
  assumes st: "start nm s = (r, s')"
  obtains
    (unknown) "SERVICE_CONFIG nm = None" "r = Inl (ValueError nm)" "s' = s"
  | (running) svc where "get nm s = (Inr svc, s')" "running s' svc"
      "r = with_message (status_dict s' svc) ''Already running''"
  | (failed) svc s1 cfg where "get nm s = (Inr svc, s1)" "\<not> running s1 svc"
      "SERVICE_CONFIG nm = Some cfg"
      "launch s1 [uvicorn cfg, app cfg, ''--host'', ''0.0.0.0'', ''--port'', str (port cfg)]
              (cwd cfg) = None"
      "r = Inl OSError" "s' = set_svc nm (svc\<lparr>logs := []\<rparr>) s1"
  | (spawned) svc s1 cfg p svc6 where "get nm s = (Inr svc, s1)" "\<not> running s1 svc"
      "SERVICE_CONFIG nm = Some cfg"
      "launch s1 [uvicorn cfg, app cfg, ''--host'', ''0.0.0.0'', ''--port'', str (port cfg)]
              (cwd cfg) = Some p"
      "svc6 = svc\<lparr>process := Some (next_handle s1), logs := [],
                 started_at := Some (now s1), reader_task := Some (next_task s1)\<rparr>"
      "s' = s1\<lparr>services := (services s1)(nm \<mapsto> svc6),
                 procs := (procs s1)(next_handle s1 := p),
                 next_handle := Suc (next_handle s1),
                 tasks := (tasks s1)(next_task s1 := \<lparr>task_svc = nm, task_state = Created\<rparr>),
                 next_task := Suc (next_task s1),
                 events := events s1 @ [Spawn (next_handle s1)]\<rparr>"
      "r = with_message (status_dict s' svc6) ''Started''"
proof (cases "get nm s")
  case (Pair g s1)
  show ?thesis
  proof (cases g)
    case (Inl e)
    with Pair have "SERVICE_CONFIG nm = None" "e = ValueError nm" "s1 = s"
      by (auto simp add: get_def split: if_splits option.splits)
    with Pair Inl st unknown show ?thesis by (simp add: start_def)
  next
    case (Inr svc)
    with Pair have g: "get nm s = (Inr svc, s1)" by simp
    from get_result(1) [OF g] obtain cfg where cfg: "SERVICE_CONFIG nm = Some cfg" by auto
    show ?thesis
    proof (cases "running s1 svc")
      case True
      from start_running [OF g True] st running [of svc] g True show ?thesis by simp
    next
      case False
      let ?cmd = "[uvicorn cfg, app cfg, ''--host'', ''0.0.0.0'', ''--port'', str (port cfg)]"
      show ?thesis
      proof (cases "launch s1 ?cmd (cwd cfg)")
        case None
        from start_spawn_fails [OF g False cfg None] st failed [OF g False cfg None]
        show ?thesis by simp
      next
        case (Some p)
        from start_spawned [OF g False cfg Some refl refl] st
          spawned [OF g False cfg Some refl]
        show ?thesis by simp
      qed
    qed
  qed
qed

lemma start_snapshot_pid:
  assumes st: "start nm s0 = (Inr d1, s1)" and reg: "services s1 nm = Some svc"
  shows "d1 ''pid'' = Some (case pid s1 svc of None \<Rightarrow> PyNone | Some p \<Rightarrow> PyInt p)"
  using st
proof (cases rule: start_cases)
  case unknown
  then show ?thesis by simp
next
  case (running svc')
  from get_result(2) [OF running(1)] reg have "svc' = svc" by simp
  with running(3) show ?thesis by (simp add: with_message_fields(1))
next
  case (failed svc' s1' cfg)
  then show ?thesis by simp
next
  case (spawned svc' s1' cfg p svc6)
  from spawned(6) reg have "svc6 = svc" by simp
  with spawned(7) show ?thesis by (simp add: with_message_fields(1))
qed

lemma start_snapshot:
  assumes "start nm s = (Inr d, s')"
  shows "status_fields d \<and>
         dom d = {''service'', ''running'', ''pid'', ''port'', ''uptime_seconds'', ''message''} \<and>
         (d ''message'' = Some (PyStr ''Already running'') \<or> d ''message'' = Some (PyStr ''Started''))"
  using assms
proof (cases rule: start_cases)
  case unknown
  then show ?thesis by simp
next
  case (running svc)
  from with_message_snapshot [OF running(3) [symmetric]] show ?thesis by simp
next
  case (failed svc s1 cfg)
  then show ?thesis by simp
next
  case (spawned svc s1 cfg p svc6)
  from with_message_snapshot [OF spawned(7) [symmetric]] show ?thesis by simp
qed

subsection \<open>The paths through stop, restart and status\<close>

lemma events_cancel: "events (cancel t s) = events s"
  by (simp add: cancel_def)

lemma stop_not_running:
  assumes g: "get nm s = (Inr svc, s1)" and nr: "\<not> running s1 svc"
  shows "stop nm s = Some (with_message (status_dict s1 svc) ''Not running'', s1)"
  unfolding stop_def g using nr by simp

lemma stop_running:
  assumes g: "get nm s = (Inr svc, s1)" and p: "process svc = Some proc"
    and r: "\<not> exited (procs s1 proc)"
  shows "\<exists>s'. stop nm s = Some (with_message (status_dict s' svc) ''Stopped'', s') \<and>
           services s' = services s1 \<and> exited (procs s' proc) \<and>
           popen_pid (procs s' proc) = popen_pid (procs s1 proc)"
  unfolding stop_def g using p r
  by (cases "exit_delay (procs s1 proc)")
     (auto simp add: running_def send_signal_def wait_for_def kill_def wait_def cancel_def
        done_task_def Let_def split: option.splits)

lemma stop_cases [consumes 1, case_names unknown not_running stopped]:
  assumes st: "stop nm s = Some (r, s')"
  obtains
    (unknown) "SERVICE_CONFIG nm = None" "r = Inl (ValueError nm)" "s' = s"
  | (not_running) svc where "get nm s = (Inr svc, s')" "\<not> running s' svc"
      "r = with_message (status_dict s' svc) ''Not running''"
  | (stopped) svc s1 proc where "get nm s = (Inr svc, s1)" "process svc = Some proc"
      "\<not> exited (procs s1 proc)" "r = with_message (status_dict s' svc) ''Stopped''"
      "services s' = services s1" "exited (procs s' proc)"
proof (cases "get nm s")
  case (Pair g s1)
  show ?thesis
  proof (cases g)
    case (Inl e)
    with Pair have "SERVICE_CONFIG nm = None" "e = ValueError nm" "s1 = s"
      by (auto simp add: get_def split: if_splits option.splits)
    with Pair Inl st unknown show ?thesis by (simp add: stop_def)
  next
    case (Inr svc)
    with Pair have g: "get nm s = (Inr svc, s1)" by simp
    show ?thesis
    proof (cases "running s1 svc")
      case False
      from stop_not_running [OF g False] st not_running [of svc] g False show ?thesis by simp
    next
      case True
      then obtain proc where p: "process svc = Some proc" and e: "\<not> exited (procs s1 proc)"
        by (auto simp add: running_def split: option.splits)
      from stop_running [OF g p e] st stopped [OF g p e] show ?thesis by auto
    qed
  qed
qed

lemma stop_returns: "stop nm s \<noteq> None"
proof (cases "get nm s")
  case (Pair g s1)
  show ?thesis
  proof (cases g)
    case (Inl e)
    with Pair show ?thesis by (simp add: stop_def)
  next
    case (Inr svc)
    with Pair have g: "get nm s = (Inr svc, s1)" by simp
    show ?thesis
    proof (cases "running s1 svc")
      case False
      from stop_not_running [OF g False] show ?thesis by simp
    next
      case True
      then obtain proc where p: "process svc = Some proc" and e: "\<not> exited (procs s1 proc)"
        by (auto simp add: running_def split: option.splits)
      from stop_running [OF g p e] show ?thesis by auto
    qed
  qed
qed

lemma restart_returns: "restart nm s \<noteq> None"
proof -
  from stop_returns [of nm s] obtain r s1 where "stop nm s = Some (r, s1)" by (cases "stop nm s") auto
  then show ?thesis by (cases r) (simp_all add: restart_def)
qed

lemma stop_snapshot:
  assumes "stop nm s = Some (Inr d, s')"
  shows "status_fields d \<and>
         dom d = {''service'', ''running'', ''pid'', ''port'', ''uptime_seconds'', ''message''} \<and>
         (d ''message'' = Some (PyStr ''Not running'') \<or> d ''message'' = Some (PyStr ''Stopped''))"
  using assms
proof (cases rule: stop_cases)
  case unknown
  then show ?thesis by simp
next
  case (not_running svc)
  from with_message_snapshot [OF not_running(3) [symmetric]] show ?thesis by simp
next
  case (stopped svc s1 proc)
  from with_message_snapshot [OF stopped(4) [symmetric]] show ?thesis by simp
qed

lemma restart_snapshot:
  assumes "restart nm s = Some (Inr d, s')"
  shows "status_fields d \<and>
         dom d = {''service'', ''running'', ''pid'', ''port'', ''uptime_seconds'', ''message''} \<and>
         (d ''message'' = Some (PyStr ''Already running'') \<or> d ''message'' = Some (PyStr ''Started''))"
proof -
  from assms obtain d0 s1 where "stop nm s = Some (Inr d0, s1)" and "start nm s1 = (Inr d, s')"
    by (auto simp add: restart_def split: option.splits sum.splits prod.splits)
  then show ?thesis by (simp only: start_snapshot)
qed

lemma status_snapshot:
  assumes "status nm s = (Inr d, s')"
  shows "status_fields d \<and>
         dom d = {''service'', ''running'', ''pid'', ''port'', ''uptime_seconds''} \<and>
         d ''message'' = None"
proof -
  from assms obtain svc s1 where "status_dict s1 svc = Inr d"
    by (auto simp add: status_def split: sum.splits prod.splits)
  from status_dict_fields [OF this] show ?thesis by simp
qed

subsection \<open>Every operation keeps the registry invariant\<close>

lemma wf_initial: "wf (initial l t)"
  by (simp add: wf_def initial_def)

lemma wf_set_svc:
  assumes "wf s" and "name svc = nm" and "SERVICE_CONFIG nm \<noteq> None"
    and "length (logs svc) \<le> LOG_BUFFER_SIZE"
  shows "wf (set_svc nm svc s)"
  using assms by (simp add: wf_def set_svc_def)

lemma wf_services:
  assumes "wf s" and "services s' = services s"
  shows "wf s'"
  using assms by (simp add: wf_def)

lemma wf_get:
  assumes "get nm s = (r, s1)" and "wf s"
  shows "wf s1"
proof (cases nm s rule: get_cases)
  case unknown
  with assms show ?thesis by simp
next
  case fresh
  with assms wf_set_svc [OF assms(2), of "ManagedService nm" nm] show ?thesis
    by (simp add: ManagedService_def)
next
  case (existing svc)
  with assms show ?thesis by simp
qed

lemma wf_start:
  assumes st: "start nm s = (r, s')" and wf: "wf s"
  shows "wf s'"
  using st
proof (cases rule: start_cases)
  case unknown
  with wf show ?thesis by simp
next
  case (running svc)
  from wf_get [OF running(1) wf] show ?thesis .
next
  case (failed svc s1 cfg)
  have w1: "wf s1" using failed(1) wf by (rule wf_get)
  from get_result(2) [OF failed(1)] w1 have "name svc = nm" by (simp add: wf_def)
  with failed(3,6) wf_set_svc [OF w1, of "svc\<lparr>logs := []\<rparr>" nm] show ?thesis by simp
next
  case (spawned svc s1 cfg p svc6)
  have w1: "wf s1" using spawned(1) wf by (rule wf_get)
  from get_result(2) [OF spawned(1)] w1 have "name svc = nm" by (simp add: wf_def)
  with spawned(3,5) have "wf (set_svc nm svc6 s1)"
    using wf_set_svc [OF w1, of svc6 nm] by simp
  moreover have "services s' = services (set_svc nm svc6 s1)"
    by (subst spawned(6)) (simp add: set_svc_def)
  ultimately show ?thesis by (rule wf_services)
qed

lemma wf_stop:
  assumes st: "stop nm s = Some (r, s')" and wf: "wf s"
  shows "wf s'"
  using st
proof (cases rule: stop_cases)
  case unknown
  with wf show ?thesis by simp
next
  case (not_running svc)
  from wf_get [OF not_running(1) wf] show ?thesis .
next
  case (stopped svc s1 proc)
  from wf_get [OF stopped(1) wf] stopped(5) show ?thesis by (rule wf_services)
qed

lemma wf_restart:
  assumes st: "restart nm s = Some (r, s')" and wf: "wf s"
  shows "wf s'"
proof -
  from st obtain r1 s1 where s1: "stop nm s = Some (r1, s1)"
    by (cases "stop nm s") (auto simp add: restart_def)
  have w1: "wf s1" using s1 wf by (rule wf_stop)
  show ?thesis
  proof (cases r1)
    case (Inl e)
    with st s1 w1 show ?thesis by (simp add: restart_def)
  next
    case (Inr d)
    with st s1 have "start nm s1 = (r, s')" by (simp add: restart_def)
    then show ?thesis using w1 by (rule wf_start)
  qed
qed

lemma wf_status:
  assumes "wf s"
  shows "wf (snd (status nm s))"
proof (cases "get nm s")
  case (Pair g s1)
  from wf_get [OF Pair assms] Pair show ?thesis
    by (cases g) (simp_all add: status_def)
qed

lemma wf_view_logs:
  assumes "wf s"
  shows "wf (snd (view_logs nm n s))"
proof (cases "get nm s")
  case (Pair g s1)
  from wf_get [OF Pair assms] Pair show ?thesis
    by (cases g) (simp_all add: view_logs_def Let_def)
qed

lemma wf_log_reader_step:
  assumes "wf s"
  shows "wf (log_reader_step t s)"
proof (cases "task_state (tasks s t)")
  case Created
  have "services (log_reader_step t s) = services s"
    using Created by (simp add: log_reader_step_def Let_def split: option.splits)
  with assms show ?thesis by (rule wf_services)
next
  case (Reading proc)
  show ?thesis
  proof (cases "stdout (procs s proc)")
    case Nil
    with Reading have "services (log_reader_step t s) = services s"
      by (simp add: log_reader_step_def Let_def)
    with assms show ?thesis by (rule wf_services)
  next
    case (Cons line rest)
    show ?thesis
    proof (cases "line = [] \<or> services s (task_svc (tasks s t)) = None")
      case True
      with Reading Cons have "services (log_reader_step t s) = services s"
        by (auto simp add: log_reader_step_def Let_def)
      with assms show ?thesis by (rule wf_services)
    next
      case False
      then obtain svc where svc: "services s (task_svc (tasks s t)) = Some svc" and l: "line \<noteq> []"
        by auto
      let ?nm = "task_svc (tasks s t)"
      let ?svc = "svc\<lparr>logs := deque_append LOG_BUFFER_SIZE (logs svc) (rstrip_nl line)\<rparr>"
      from svc assms have n: "name svc = ?nm" and c: "SERVICE_CONFIG ?nm \<noteq> None"
        and b: "length (logs svc) \<le> LOG_BUFFER_SIZE"
        by (simp_all add: wf_def)
      have "wf (set_svc ?nm ?svc s)"
        using assms n c b by (intro wf_set_svc) (simp_all add: deque_append_length)
      moreover have "services (log_reader_step t s) = services (set_svc ?nm ?svc s)"
        using Reading Cons svc l by (simp add: log_reader_step_def set_svc_def Let_def)
      ultimately show ?thesis by (rule wf_services)
    qed
  qed
next
  case Finished
  then show ?thesis using assms by (simp add: log_reader_step_def Let_def)
next
  case Cancelled
  then show ?thesis using assms by (simp add: log_reader_step_def Let_def)
qed

subsection \<open>The reader task runs the reader loop\<close>

lemma log_reader_step_done:
  assumes "task_state (tasks s t) = Finished \<or> task_state (tasks s t) = Cancelled"
  shows "(log_reader_step t ^^ n) s = s"
proof (induction n)
  case 0
  show ?case by simp
next
  case (Suc n)
  have "log_reader_step t s = s"
    using assms by (auto simp add: log_reader_step_def Let_def)
  with Suc show ?case by (simp add: funpow_swap1)
qed

text \<open>
  A task that is reading process \<open>proc\<close> for the record \<open>nm\<close> and is scheduled once
  more than there are lines to come, with nothing else touching the record in between,
  ends finished and leaves in the record's buffer what the loop \<open>log_reader\<close> computes.
\<close>

lemma log_reader_steps:
  assumes "task_state (tasks s t) = Reading proc" and "task_svc (tasks s t) = nm"
    and "services s nm = Some svc" and "stdout (procs s proc) = lines"
  shows "map_option logs (services ((log_reader_step t ^^ Suc (length lines)) s) nm) =
           Some (log_reader lines (logs svc)) \<and>
         task_state (tasks ((log_reader_step t ^^ Suc (length lines)) s) t) = Finished"
  using assms
proof (induction lines arbitrary: s svc)
  case Nil
  then show ?case by (simp add: log_reader_step_def Let_def)
next
  case (Cons line rest)
  let ?s1 = "log_reader_step t s"
  have unroll: "(log_reader_step t ^^ Suc (length (line # rest))) s =
      (log_reader_step t ^^ Suc (length rest)) ?s1"
    by (simp add: funpow_swap1)
  show ?case
  proof (cases "line = []")
    case True
    with Cons.prems have s1: "task_state (tasks ?s1 t) = Finished" "services ?s1 = services s"
      by (simp_all add: log_reader_step_def Let_def)
    have "(log_reader_step t ^^ Suc (length rest)) ?s1 = ?s1"
      by (rule log_reader_step_done) (simp add: s1(1))
    with unroll s1 True Cons.prems(3) show ?thesis by simp
  next
    case False
    let ?svc = "svc\<lparr>logs := deque_append LOG_BUFFER_SIZE (logs svc) (rstrip_nl line)\<rparr>"
    from Cons.prems False have a: "task_state (tasks ?s1 t) = Reading proc"
      and b: "task_svc (tasks ?s1 t) = nm"
      and c: "services ?s1 nm = Some ?svc"
      and d: "stdout (procs ?s1 proc) = rest"
      by (simp_all add: log_reader_step_def Let_def)
    from Cons.IH [OF a b c d] unroll False show ?thesis by simp
  qed
qed

subsection \<open>The concrete states\<close>

lemma demo_running_fields:
  "services demo_running ''whisper'' =
     Some \<lparr>name = ''whisper'', process = Some 0, logs = [], started_at = Some 1000,
           reader_task = Some 0\<rparr>"
  "procs demo_running 0 = demo_proc"
  "events demo_running = [Spawn 0]"
  "tasks demo_running 0 = \<lparr>task_svc = ''whisper'', task_state = Created\<rparr>"
  "now demo_running = 1000"
  by (simp_all add: demo_running_def start_def get_def initial_def SERVICE_CONFIG_def
      ManagedService_def running_def set_svc_def Popen_def create_task_def Let_def)

lemma demo_running_eq:
  "demo_running =
     \<lparr>services = [''whisper'' \<mapsto> \<lparr>name = ''whisper'', process = Some 0, logs = [],
                     started_at = Some 1000, reader_task = Some 0\<rparr>],
      procs = (\<lambda>h. no_process)(0 := demo_proc),
      next_handle = Suc 0,
      tasks = (\<lambda>t. \<lparr>task_svc = [], task_state = Finished\<rparr>)
                (0 := \<lparr>task_svc = ''whisper'', task_state = Created\<rparr>),
      next_task = Suc 0,
      now = 1000,
      launch = (\<lambda>cmd dir. Some demo_proc),
      events = [Spawn 0]\<rparr>"
  by (simp add: demo_running_def start_def get_def initial_def SERVICE_CONFIG_def
      ManagedService_def running_def set_svc_def Popen_def create_task_def Let_def)

lemma demo_stubborn_fields:
  "services demo_stubborn ''tts'' =
     Some \<lparr>name = ''tts'', process = Some 0, logs = [], started_at = Some 1000,
           reader_task = Some 0\<rparr>"
  "procs demo_stubborn 0 = stubborn_proc"
  "events demo_stubborn = [Spawn 0]"
  by (simp_all add: demo_stubborn_def start_def get_def initial_def SERVICE_CONFIG_def
      ManagedService_def running_def set_svc_def Popen_def create_task_def Let_def)

lemma demo_crashed_eq:
  "demo_crashed =
     \<lparr>services = [''whisper'' \<mapsto> \<lparr>name = ''whisper'', process = Some 0, logs = [],
                     started_at = Some 1000, reader_task = Some 0\<rparr>],
      procs = (\<lambda>h. no_process)(0 := demo_proc\<lparr>exited := True\<rparr>),
      next_handle = Suc 0,
      tasks = (\<lambda>t. \<lparr>task_svc = [], task_state = Finished\<rparr>)
                (0 := \<lparr>task_svc = ''whisper'', task_state = Reading 0\<rparr>),
      next_task = Suc 0,
      now = 1000,
      launch = (\<lambda>cmd dir. Some demo_proc),
      events = [Spawn 0]\<rparr>"
  by (simp add: demo_crashed_def proc_exits_def log_reader_step_def demo_running_eq Let_def)

lemma demo_first_start:
  "\<exists>d1. start ''whisper'' (initial (\<lambda>cmd dir. Some demo_proc) 1000) = (Inr d1, demo_running) \<and>
      d1 ''message'' = Some (PyStr ''Started'') \<and>
      d1 ''pid'' = Some (PyInt 4242)"
proof -
  let ?i = "initial (\<lambda>cmd dir. Some demo_proc) 1000"
  obtain r where st: "start ''whisper'' ?i = (r, demo_running)"
    unfolding demo_running_def by (cases "start ''whisper'' ?i") simp
  have k: "SERVICE_CONFIG ''whisper'' \<noteq> None" by (simp add: SERVICE_CONFIG_def)
  have g0: "get ''whisper'' ?i =
      (Inr (ManagedService ''whisper''), set_svc ''whisper'' (ManagedService ''whisper'') ?i)"
    using k by (rule get_fresh) (simp add: initial_def)
  from st show ?thesis
  proof (cases rule: start_cases)
    case unknown
    with k show ?thesis by simp
  next
    case (running svc)
    from g0 running(1) have "svc = ManagedService ''whisper''" by simp
    with running(2) show ?thesis by (simp add: running_def ManagedService_def)
  next
    case (failed svc s1 cfg)
    from get_result(3) [OF failed(1)] failed(4) show ?thesis
      by (simp add: set_svc_def initial_def)
  next
    case (spawned svc s1 cfg p svc6)
    have "services demo_running ''whisper'' = Some svc6" by (subst spawned(6)) simp
    then have n: "name svc6 = ''whisper''" and pr: "process svc6 = Some 0"
      by (auto simp add: demo_running_fields)
    from k n obtain c where c: "SERVICE_CONFIG (name svc6) = Some c" by auto
    obtain d1 where w: "with_message (status_dict demo_running svc6) ''Started'' = Inr d1"
      using with_message_status_dict [OF c] by blast
    from with_message_fields(1) [OF w] pr
    have "d1 ''pid'' = Some (PyInt 4242)"
      by (simp add: pid_def demo_running_fields demo_proc_def)
    with st spawned(7) w with_message_fields(3) [OF w] show ?thesis by simp
  qed
qed

lemma demo_start_again:
  "\<exists>d s'. start ''whisper'' demo_running = (Inr d, s') \<and>
      d ''message'' = Some (PyStr ''Already running'')"
  by (simp add: demo_running_eq start_def get_def SERVICE_CONFIG_def
      demo_proc_def running_def with_message_def status_dict_def Let_def)

lemma demo_stop:
  "\<exists>d s'. stop ''whisper'' demo_running = Some (Inr d, s') \<and>
      d ''message'' = Some (PyStr ''Stopped'')"
  by (simp add: demo_running_eq stop_def get_def SERVICE_CONFIG_def
      demo_proc_def running_def send_signal_def wait_for_def cancel_def done_task_def
      with_message_def status_dict_def Let_def)

lemma demo_restart:
  "\<exists>d s'. restart ''whisper'' demo_running = Some (Inr d, s') \<and>
      d ''message'' = Some (PyStr ''Started'') \<and> d ''pid'' = Some (PyInt 4242)"
  by (simp add: demo_running_eq restart_def stop_def start_def get_def SERVICE_CONFIG_def
      demo_proc_def running_def pid_def send_signal_def wait_for_def cancel_def done_task_def
      set_svc_def Popen_def create_task_def with_message_def status_dict_def Let_def)

lemma demo_status:
  "\<exists>d s'. status ''whisper'' demo_running = (Inr d, s') \<and>
      d ''running'' = Some (PyBool True)"
  by (simp add: demo_running_eq status_def get_def SERVICE_CONFIG_def
      demo_proc_def running_def status_dict_def Let_def)

section \<open>The claims of the specification\<close>

subsection \<open>C1: the escalation of stop\<close>

text \<open>
  C1. For a known service whose process is running, stop returns, and what it did to the
  process is, in this order: one \<open>CTRL_BREAK_EVENT\<close> signal (whether or not sending it
  raised), one wait bounded by 10 seconds, and then a kill followed by an unbounded wait
  exactly when the process did not exit within the 10 seconds; nothing else. The snapshot
  returned carries the message Stopped.
\<close>

theorem stop_escalation_order:
  assumes known: "SERVICE_CONFIG nm \<noteq> None"
    and reg: "services s nm = Some svc" "name svc = nm"
    and run: "process svc = Some proc" "\<not> exited (procs s proc)"
  shows "\<exists>d s'. stop nm s = Some (Inr d, s') \<and>
           d ''message'' = Some (PyStr ''Stopped'') \<and>
           events s' = events s @ [SendSignal proc CTRL_BREAK_EVENT, WaitFor proc 10] @
             (case exit_delay (procs s proc) of
                None \<Rightarrow> [Kill proc, Wait proc]
              | Some dl \<Rightarrow> if dl < 10 then [] else [Kill proc, Wait proc])"
proof -
  from known reg(2) obtain cfg where cfg: "SERVICE_CONFIG (name svc) = Some cfg" by auto
  show ?thesis
    using known reg run
    by (cases "exit_delay (procs s proc)")
       (auto simp add: stop_def get_known running_def send_signal_def wait_for_def kill_def
          wait_def events_cancel with_message_status_dict [OF cfg] Let_def
          split: option.splits)
qed

theorem stop_escalation_order_witness:
  "SERVICE_CONFIG ''whisper'' \<noteq> None \<and>
   \<not> exited (procs demo_running 0) \<and>
   (\<exists>d s'. stop ''whisper'' demo_running = Some (Inr d, s') \<and>
      d ''message'' = Some (PyStr ''Stopped'') \<and>
      events s' = [Spawn 0, SendSignal 0 CTRL_BREAK_EVENT, WaitFor 0 10]) \<and>
   SERVICE_CONFIG ''tts'' \<noteq> None \<and>
   \<not> exited (procs demo_stubborn 0) \<and>
   (\<exists>d s'. stop ''tts'' demo_stubborn = Some (Inr d, s') \<and>
      d ''message'' = Some (PyStr ''Stopped'') \<and>
      events s' = [Spawn 0, SendSignal 0 CTRL_BREAK_EVENT, WaitFor 0 10, Kill 0, Wait 0])"
proof -
  have k: "SERVICE_CONFIG ''whisper'' \<noteq> None" and k': "SERVICE_CONFIG ''tts'' \<noteq> None"
    by (simp_all add: SERVICE_CONFIG_def)
  have r: "\<not> exited (procs demo_running 0)" by (simp add: demo_running_fields demo_proc_def)
  have r': "\<not> exited (procs demo_stubborn 0)"
    by (simp add: demo_stubborn_fields stubborn_proc_def)
  have a: "\<exists>d s'. stop ''whisper'' demo_running = Some (Inr d, s') \<and>
      d ''message'' = Some (PyStr ''Stopped'') \<and>
      events s' = [Spawn 0, SendSignal 0 CTRL_BREAK_EVENT, WaitFor 0 10]"
    using stop_escalation_order [OF k demo_running_fields(1) _ _ r]
    by (simp add: demo_running_fields demo_proc_def)
  have b: "\<exists>d s'. stop ''tts'' demo_stubborn = Some (Inr d, s') \<and>
      d ''message'' = Some (PyStr ''Stopped'') \<and>
      events s' = [Spawn 0, SendSignal 0 CTRL_BREAK_EVENT, WaitFor 0 10, Kill 0, Wait 0]"
    using stop_escalation_order [OF k' demo_stubborn_fields(1) _ _ r']
    by (simp add: demo_stubborn_fields stubborn_proc_def)
  from k r a k' r' b show ?thesis by (intro conjI)
qed

subsection \<open>C2: the log buffer\<close>

text \<open>
  C2. Starting from a buffer of at most 500 lines, whatever the log reader reads, the
  buffer afterwards holds at most 500 lines and is exactly the last 500 of the old
  contents followed by the lines written, in the order they were produced; an append to a
  full buffer drops its oldest line; and after 501 lines written into an empty buffer it
  holds the last 500 of them.
\<close>

theorem log_buffer_bounded_fifo:
  assumes "length buf \<le> LOG_BUFFER_SIZE"
  shows "length (log_reader lines buf) \<le> 500 \<and>
         log_reader lines buf =
           drop (length (buf @ map rstrip_nl (takeWhile (\<lambda>l. l \<noteq> []) lines)) - 500)
                (buf @ map rstrip_nl (takeWhile (\<lambda>l. l \<noteq> []) lines)) \<and>
         deque_append LOG_BUFFER_SIZE buf x = (if length buf = 500 then tl buf @ [x] else buf @ [x]) \<and>
         (buf = [] \<and> length (takeWhile (\<lambda>l. l \<noteq> []) lines) = 501 \<longrightarrow>
            log_reader lines buf = tl (map rstrip_nl (takeWhile (\<lambda>l. l \<noteq> []) lines)))"
proof -
  let ?w = "map rstrip_nl (takeWhile (\<lambda>l. l \<noteq> []) lines)"
  have w: "log_reader lines buf = drop (length (buf @ ?w) - 500) (buf @ ?w)"
    using log_reader_window [OF assms, of lines] by (simp add: LOG_BUFFER_SIZE_def)
  have 1: "length (log_reader lines buf) \<le> 500"
    unfolding w by simp
  have 3: "deque_append LOG_BUFFER_SIZE buf x = (if length buf = 500 then tl buf @ [x] else buf @ [x])"
    using assms by (cases buf) (auto simp add: deque_append_def LOG_BUFFER_SIZE_def)
  have 4: "buf = [] \<and> length (takeWhile (\<lambda>l. l \<noteq> []) lines) = 501 \<longrightarrow> log_reader lines buf = tl ?w"
  proof
    assume a: "buf = [] \<and> length (takeWhile (\<lambda>l. l \<noteq> []) lines) = 501"
    then have "length (buf @ ?w) - 500 = Suc 0" by simp
    then have "drop (length (buf @ ?w) - 500) (buf @ ?w) = tl (buf @ ?w)"
      by (simp only: drop_Suc drop_0)
    with a w show "log_reader lines buf = tl ?w" by simp
  qed
  from 1 w 3 4 show ?thesis by blast
qed

theorem log_buffer_bounded_fifo_witness:
  "length [''boot''] \<le> LOG_BUFFER_SIZE \<and>
   length (map (\<lambda>i. replicate (Suc i) (CHR ''x'') @ [CHR 0x0A]) [0..<501]) = 501 \<and>
   log_reader [[CHR ''u'', CHR ''p'', CHR 0x0A], ''ok'', [], ''lost''] [''boot''] = [''boot'', ''up'', ''ok''] \<and>
   log_reader (map (\<lambda>i. replicate (Suc i) (CHR ''x'') @ [CHR 0x0A]) [0..<501]) [] =
     map (\<lambda>i. replicate (Suc i) (CHR ''x'')) [1..<501]"
proof -
  let ?f = "\<lambda>i. replicate (Suc i) (CHR ''x'') @ [CHR 0x0A]"
  let ?ls = "map ?f [0..<501]"
  have h0: "length ([]::string list) \<le> LOG_BUFFER_SIZE" by simp
  have h1: "length [''boot''] \<le> LOG_BUFFER_SIZE" by (simp add: LOG_BUFFER_SIZE_def)
  have all: "takeWhile (\<lambda>l. l \<noteq> []) ?ls = ?ls"
    by simp
  have strip: "rstrip_nl (?f i) = replicate (Suc i) (CHR ''x'')" for i
    by (simp add: rstrip_nl_def del: replicate_Suc)
  have len: "length (takeWhile (\<lambda>l. l \<noteq> []) ?ls) = 501"
    unfolding all by simp
  have "[] = ([]::string list) \<and> length (takeWhile (\<lambda>l. l \<noteq> []) ?ls) = 501 \<longrightarrow>
      log_reader ?ls [] = tl (map rstrip_nl (takeWhile (\<lambda>l. l \<noteq> []) ?ls))"
    using log_buffer_bounded_fifo [OF h0, of ?ls "''z''"] by blast
  with len have "log_reader ?ls [] = tl (map rstrip_nl (takeWhile (\<lambda>l. l \<noteq> []) ?ls))"
    by blast
  then have "log_reader ?ls [] = tl (map rstrip_nl ?ls)"
    unfolding all .
  also have "\<dots> = map (\<lambda>i. replicate (Suc i) (CHR ''x'')) (tl [0..<501])"
    by (simp only: map_tl map_map o_def strip)
  also have "tl [0..<501] = [1..<501]"
    by simp
  finally have big: "log_reader ?ls [] = map (\<lambda>i. replicate (Suc i) (CHR ''x'')) [1..<501]" .
  have small: "log_reader [[CHR ''u'', CHR ''p'', CHR 0x0A], ''ok'', [], ''lost''] [''boot''] = [''boot'', ''up'', ''ok'']"
    using log_buffer_bounded_fifo [OF h1, of "[[CHR ''u'', CHR ''p'', CHR 0x0A], ''ok'', [], ''lost'']" "''z''"]
    by (simp add: rstrip_nl_def)
  show ?thesis using h1 big small by simp
qed

subsection \<open>C3: unknown service names\<close>

text \<open>
  C3. For a name outside \<^verbatim>\<open>SERVICE_CONFIG\<close>, each of start, stop, restart, status and
  view\_logs fails with the \<open>ValueError\<close> of \<^verbatim>\<open>_get\<close> and returns the state as it
  was: no record is inserted into the registry.
\<close>

theorem unknown_service_fails:
  assumes "SERVICE_CONFIG nm = None"
  shows "start nm s = (Inl (ValueError nm), s) \<and>
         stop nm s = Some (Inl (ValueError nm), s) \<and>
         restart nm s = Some (Inl (ValueError nm), s) \<and>
         status nm s = (Inl (ValueError nm), s) \<and>
         view_logs nm n s = (Inl (ValueError nm), s)"
  using assms by (simp add: start_def stop_def restart_def status_def view_logs_def get_unknown)

theorem unknown_service_fails_witness:
  "SERVICE_CONFIG ''redis'' = None \<and>
   start ''redis'' (initial (\<lambda>c d. None) 1000) = (Inl (ValueError ''redis''), initial (\<lambda>c d. None) 1000) \<and>
   stop ''redis'' (initial (\<lambda>c d. None) 1000) = Some (Inl (ValueError ''redis''), initial (\<lambda>c d. None) 1000) \<and>
   restart ''redis'' (initial (\<lambda>c d. None) 1000) = Some (Inl (ValueError ''redis''), initial (\<lambda>c d. None) 1000) \<and>
   status ''redis'' (initial (\<lambda>c d. None) 1000) = (Inl (ValueError ''redis''), initial (\<lambda>c d. None) 1000) \<and>
   view_logs ''redis'' 7 (initial (\<lambda>c d. None) 1000) = (Inl (ValueError ''redis''), initial (\<lambda>c d. None) 1000) \<and>
   services (snd (status ''redis'' (initial (\<lambda>c d. None) 1000))) ''redis'' = None"
proof -
  have h: "SERVICE_CONFIG ''redis'' = None" by (simp add: SERVICE_CONFIG_def)
  show ?thesis using h unknown_service_fails [OF h, of "initial (\<lambda>c d. None) 1000" 7]
    by (simp add: initial_def)
qed

subsection \<open>C4: the process handle after stop\<close>

text \<open>
  C4, as stated, fails: after stop of the running whisper service the record still stores
  process handle 0.
\<close>

theorem stop_keeps_handle_counterexample:
  "\<not> exited (procs demo_running 0) \<and>
   map_option process (services demo_running ''whisper'') = Some (Some 0) \<and>
   map_option process (record_after ''whisper'' (stop ''whisper'' demo_running)) = Some (Some 0) \<and>
   map_option process (record_after ''whisper'' (stop ''whisper'' demo_running)) \<noteq> Some None"
  by (simp add: record_after_def stop_def get_def SERVICE_CONFIG_def demo_running_fields
      demo_proc_def running_def send_signal_def wait_for_def cancel_def done_task_def
      with_message_def status_dict_def Let_def)

text \<open>
  C4, amended. When stop returns for a service that was running, the record is unchanged
  and still stores the same process handle; the process behind it has exited, so the
  snapshot reports running false together with the pid of the exited process.
\<close>

theorem stop_keeps_exited_handle:
  assumes known: "SERVICE_CONFIG nm \<noteq> None"
    and reg: "services s nm = Some svc" "name svc = nm"
    and run: "process svc = Some proc" "\<not> exited (procs s proc)"
  shows "\<exists>d s'. stop nm s = Some (Inr d, s') \<and>
           services s' nm = Some svc \<and>
           process svc = Some proc \<and>
           exited (procs s' proc) \<and>
           d ''running'' = Some (PyBool False) \<and>
           d ''pid'' = Some (PyInt (popen_pid (procs s proc)))"
proof -
  from known reg(2) obtain cfg where cfg: "SERVICE_CONFIG (name svc) = Some cfg" by auto
  show ?thesis
    using known reg run
    by (cases "exit_delay (procs s proc)")
       (auto simp add: stop_def get_known running_def pid_def send_signal_def wait_for_def
          kill_def wait_def cancel_def done_task_def with_message_status_dict [OF cfg] Let_def
          split: option.splits)
qed

theorem stop_keeps_exited_handle_witness:
  "SERVICE_CONFIG ''whisper'' \<noteq> None \<and>
   \<not> exited (procs demo_running 0) \<and>
   (\<exists>d s'. stop ''whisper'' demo_running = Some (Inr d, s') \<and>
      map_option process (services s' ''whisper'') = Some (Some 0) \<and>
      exited (procs s' 0) \<and>
      d ''running'' = Some (PyBool False) \<and>
      d ''pid'' = Some (PyInt 4242))"
proof -
  have k: "SERVICE_CONFIG ''whisper'' \<noteq> None" by (simp add: SERVICE_CONFIG_def)
  have r: "\<not> exited (procs demo_running 0)" by (simp add: demo_running_fields demo_proc_def)
  show ?thesis
    using k r stop_keeps_exited_handle [OF k demo_running_fields(1) _ _ r]
    by (auto simp add: demo_running_fields demo_proc_def)
qed

subsection \<open>C5: start on a running service\<close>

text \<open>
  C5. When the service is running, start returns the snapshot with the message
  Already running and the pid of the process the record holds, and returns the state
  exactly as it was: no process is spawned, no task is created and no field of the record
  changes. In particular, called right after a start that returned a snapshot, it reports
  the same pid as that first call.
\<close>

theorem start_idempotent:
  assumes known: "SERVICE_CONFIG nm \<noteq> None"
    and reg: "services s nm = Some svc" "name svc = nm"
    and run: "process svc = Some proc" "\<not> exited (procs s proc)"
  shows "\<exists>d2. start nm s = (Inr d2, s) \<and>
           d2 ''message'' = Some (PyStr ''Already running'') \<and>
           d2 ''pid'' = Some (PyInt (popen_pid (procs s proc))) \<and>
           (\<forall>s0 d1. start nm s0 = (Inr d1, s) \<longrightarrow> d1 ''pid'' = d2 ''pid'')"
proof -
  from known reg(2) obtain cfg where cfg: "SERVICE_CONFIG (name svc) = Some cfg" by auto
  have r: "running s svc" using run by (simp add: running_def)
  have g: "get nm s = (Inr svc, s)" using known reg(1) by (rule get_known)
  obtain d2 where w: "with_message (status_dict s svc) ''Already running'' = Inr d2"
    using with_message_status_dict [OF cfg] by blast
  have st: "start nm s = (Inr d2, s)"
    using start_running [OF g r] w by simp
  have p: "d2 ''pid'' = Some (PyInt (popen_pid (procs s proc)))"
    using with_message_fields(1) [OF w] run(1) by (simp add: pid_def)
  have m: "d2 ''message'' = Some (PyStr ''Already running'')"
    using w by (rule with_message_fields(3))
  have f: "d1 ''pid'' = d2 ''pid''" if "start nm s0 = (Inr d1, s)" for s0 d1
    using start_snapshot_pid [OF that reg(1)] with_message_fields(1) [OF w] by simp
  show ?thesis
  proof (intro exI conjI allI impI)
    show "start nm s = (Inr d2, s)" by (rule st)
    show "d2 ''message'' = Some (PyStr ''Already running'')" by (rule m)
    show "d2 ''pid'' = Some (PyInt (popen_pid (procs s proc)))" by (rule p)
    show "d1 ''pid'' = d2 ''pid''" if "start nm s0 = (Inr d1, s)" for s0 d1
      using that by (rule f)
  qed
qed

theorem start_idempotent_witness:
  "SERVICE_CONFIG ''whisper'' \<noteq> None \<and>
   \<not> exited (procs demo_running 0) \<and>
   (\<exists>d1 d2. start ''whisper'' (initial (\<lambda>cmd dir. Some demo_proc) 1000) = (Inr d1, demo_running) \<and>
      d1 ''message'' = Some (PyStr ''Started'') \<and>
      d1 ''pid'' = Some (PyInt 4242) \<and>
      start ''whisper'' demo_running = (Inr d2, demo_running) \<and>
      d2 ''message'' = Some (PyStr ''Already running'') \<and>
      d2 ''pid'' = Some (PyInt 4242) \<and>
      d1 ''pid'' = d2 ''pid'')"
proof -
  have k: "SERVICE_CONFIG ''whisper'' \<noteq> None" by (simp add: SERVICE_CONFIG_def)
  have r: "\<not> exited (procs demo_running 0)" by (simp add: demo_running_fields demo_proc_def)
  obtain d1 where d1: "start ''whisper'' (initial (\<lambda>cmd dir. Some demo_proc) 1000) = (Inr d1, demo_running)"
      "d1 ''message'' = Some (PyStr ''Started'')" "d1 ''pid'' = Some (PyInt 4242)"
    using demo_first_start by blast
  have n: "name \<lparr>name = ''whisper'', process = Some 0, logs = [], started_at = Some 1000,
           reader_task = Some 0\<rparr> = ''whisper''" by simp
  have h: "process \<lparr>name = ''whisper'', process = Some 0, logs = [], started_at = Some 1000,
           reader_task = Some 0\<rparr> = Some 0" by simp
  obtain d2 where d2: "start ''whisper'' demo_running = (Inr d2, demo_running)"
      "d2 ''message'' = Some (PyStr ''Already running'')"
      "d2 ''pid'' = Some (PyInt (popen_pid (procs demo_running 0)))"
      "\<forall>s0 d1. start ''whisper'' s0 = (Inr d1, demo_running) \<longrightarrow> d1 ''pid'' = d2 ''pid''"
    using start_idempotent [OF k demo_running_fields(1) n h r] by blast
  from d2(4) d1(1) have e: "d1 ''pid'' = d2 ''pid''" by blast
  have p: "d2 ''pid'' = Some (PyInt 4242)" using e d1(3) by simp
  show ?thesis
  proof (intro conjI exI)
    show "SERVICE_CONFIG ''whisper'' \<noteq> None" by (rule k)
    show "\<not> exited (procs demo_running 0)" by (rule r)
    show "start ''whisper'' (initial (\<lambda>cmd dir. Some demo_proc) 1000) = (Inr d1, demo_running)"
      by (rule d1(1))
    show "d1 ''message'' = Some (PyStr ''Started'')" by (rule d1(2))
    show "d1 ''pid'' = Some (PyInt 4242)" by (rule d1(3))
    show "start ''whisper'' demo_running = (Inr d2, demo_running)" by (rule d2(1))
    show "d2 ''message'' = Some (PyStr ''Already running'')" by (rule d2(2))
    show "d2 ''pid'' = Some (PyInt 4242)" by (rule p)
    show "d1 ''pid'' = d2 ''pid''" by (rule e)
  qed
qed

subsection \<open>C6: view\_logs\<close>

text \<open>
  C6. For a known service and any integer \<open>n\<close>, view\_logs reports
  \<open>lines_requested = max 1 (min n 500)\<close>, a number between 1 and 500, and returns the
  last \<open>min (that number) (lines available)\<close> lines of the buffer in the buffer's own
  order, with \<open>lines_returned\<close> their count; the buffer is the record's, or empty when
  the record is created by this call.
\<close>

theorem view_logs_clamped_tail:
  assumes known: "SERVICE_CONFIG nm \<noteq> None"
    and buf: "buf = (case services s nm of None \<Rightarrow> [] | Some svc \<Rightarrow> logs svc)"
    and k: "k = max 1 (min n 500)"
  shows "1 \<le> k \<and> k \<le> 500 \<and> min (nat k) (length buf) \<le> 500 \<and>
         fst (view_logs nm n s) =
           Inr [''service'' \<mapsto> PyStr nm,
                ''lines_requested'' \<mapsto> PyInt k,
                ''lines_returned'' \<mapsto> PyInt (int (min (nat k) (length buf))),
                ''logs'' \<mapsto> PyList (map PyStr (drop (length buf - min (nat k) (length buf)) buf))]"
proof -
  have k1: "1 \<le> k" and k500: "k \<le> 500" using k by simp_all
  have v: "fst (view_logs nm n s) =
           Inr [''service'' \<mapsto> PyStr nm,
                ''lines_requested'' \<mapsto> PyInt k,
                ''lines_returned'' \<mapsto> PyInt (int (length (slice_from (- k) buf))),
                ''logs'' \<mapsto> PyList (map PyStr (slice_from (- k) buf))]"
  proof (cases "services s nm")
    case None
    with known buf k show ?thesis
      by (simp add: view_logs_def get_fresh ManagedService_def LOG_BUFFER_SIZE_def Let_def)
  next
    case (Some svc)
    with known buf k show ?thesis
      by (simp add: view_logs_def get_known LOG_BUFFER_SIZE_def Let_def)
  qed
  have e: "length (drop (length buf - min (nat k) (length buf)) buf) = min (nat k) (length buf)"
    by auto
  from v have "fst (view_logs nm n s) =
           Inr [''service'' \<mapsto> PyStr nm,
                ''lines_requested'' \<mapsto> PyInt k,
                ''lines_returned'' \<mapsto> PyInt (int (min (nat k) (length buf))),
                ''logs'' \<mapsto> PyList (map PyStr (drop (length buf - min (nat k) (length buf)) buf))]"
    by (simp only: slice_from_last [OF k1] e)
  moreover have "min (nat k) (length buf) \<le> 500" using k500 by simp
  ultimately show ?thesis using k1 k500 by blast
qed

theorem view_logs_clamped_tail_witness:
  "SERVICE_CONFIG ''tts'' \<noteq> None \<and>
   fst (view_logs ''tts'' 10000 (initial (\<lambda>cmd dir. None) 1000)) =
     Inr [''service'' \<mapsto> PyStr ''tts'', ''lines_requested'' \<mapsto> PyInt 500,
          ''lines_returned'' \<mapsto> PyInt 0, ''logs'' \<mapsto> PyList []] \<and>
   fst (view_logs ''whisper'' 0 demo_logged) =
     Inr [''service'' \<mapsto> PyStr ''whisper'', ''lines_requested'' \<mapsto> PyInt 1,
          ''lines_returned'' \<mapsto> PyInt 1, ''logs'' \<mapsto> PyList [PyStr ''three'']] \<and>
   fst (view_logs ''whisper'' 2 demo_logged) =
     Inr [''service'' \<mapsto> PyStr ''whisper'', ''lines_requested'' \<mapsto> PyInt 2,
          ''lines_returned'' \<mapsto> PyInt 2,
          ''logs'' \<mapsto> PyList [PyStr ''two'', PyStr ''three'']]"
proof -
  have t: "SERVICE_CONFIG ''tts'' \<noteq> None" and w: "SERVICE_CONFIG ''whisper'' \<noteq> None"
    by (simp_all add: SERVICE_CONFIG_def)
  have a: "fst (view_logs ''tts'' 10000 (initial (\<lambda>cmd dir. None) 1000)) =
     Inr [''service'' \<mapsto> PyStr ''tts'', ''lines_requested'' \<mapsto> PyInt 500,
          ''lines_returned'' \<mapsto> PyInt 0, ''logs'' \<mapsto> PyList []]"
    using view_logs_clamped_tail [OF t refl refl, of 10000 "initial (\<lambda>cmd dir. None) 1000"]
    by (simp add: initial_def)
  have b: "fst (view_logs ''whisper'' 0 demo_logged) =
     Inr [''service'' \<mapsto> PyStr ''whisper'', ''lines_requested'' \<mapsto> PyInt 1,
          ''lines_returned'' \<mapsto> PyInt 1, ''logs'' \<mapsto> PyList [PyStr ''three'']]"
    using view_logs_clamped_tail [OF w refl refl, of 0 demo_logged]
    by (simp add: demo_logged_def)
  have c: "fst (view_logs ''whisper'' 2 demo_logged) =
     Inr [''service'' \<mapsto> PyStr ''whisper'', ''lines_requested'' \<mapsto> PyInt 2,
          ''lines_returned'' \<mapsto> PyInt 2,
          ''logs'' \<mapsto> PyList [PyStr ''two'', PyStr ''three'']]"
    using view_logs_clamped_tail [OF w refl refl, of 2 demo_logged]
    by (simp add: demo_logged_def)
  from t a b c show ?thesis by blast
qed

subsection \<open>C7: the snapshots returned\<close>

text \<open>
  C7, as stated, fails: the snapshot status returns for whisper in the initial state has
  the five status fields and no message.
\<close>

theorem status_has_no_message_counterexample:
  "fst (status ''whisper'' demo_idle) =
     Inr [''service'' \<mapsto> PyStr ''whisper'', ''running'' \<mapsto> PyBool False, ''pid'' \<mapsto> PyNone,
          ''port'' \<mapsto> PyInt 8100, ''uptime_seconds'' \<mapsto> PyNone] \<and>
   snapshot_field ''message'' (fst (status ''whisper'' demo_idle)) = None"
  by (simp add: snapshot_field_def status_def get_def SERVICE_CONFIG_def demo_idle_def initial_def
      ManagedService_def status_dict_def running_def pid_def uptime_seconds_def)

text \<open>
  C7, amended. Every dictionary returned by start, stop or restart has exactly the six
  keys service, running, pid, port, uptime\_seconds and message, the first five typed as
  the specification says, and its message is Already running or Started for start and
  restart, Not running or Stopped for stop. Every dictionary returned by status has
  exactly the first five keys and no message. stop and restart always return.
\<close>

theorem snapshot_fields_and_messages:
  "(start nm s = (Inr d, s') \<longrightarrow>
      status_fields d \<and>
      dom d = {''service'', ''running'', ''pid'', ''port'', ''uptime_seconds'', ''message''} \<and>
      (d ''message'' = Some (PyStr ''Already running'') \<or> d ''message'' = Some (PyStr ''Started''))) \<and>
   (stop nm s = Some (Inr d, s') \<longrightarrow>
      status_fields d \<and>
      dom d = {''service'', ''running'', ''pid'', ''port'', ''uptime_seconds'', ''message''} \<and>
      (d ''message'' = Some (PyStr ''Not running'') \<or> d ''message'' = Some (PyStr ''Stopped''))) \<and>
   (restart nm s = Some (Inr d, s') \<longrightarrow>
      status_fields d \<and>
      dom d = {''service'', ''running'', ''pid'', ''port'', ''uptime_seconds'', ''message''} \<and>
      (d ''message'' = Some (PyStr ''Already running'') \<or> d ''message'' = Some (PyStr ''Started''))) \<and>
   (status nm s = (Inr d, s') \<longrightarrow>
      status_fields d \<and>
      dom d = {''service'', ''running'', ''pid'', ''port'', ''uptime_seconds''} \<and>
      d ''message'' = None) \<and>
   stop nm s \<noteq> None \<and> restart nm s \<noteq> None"
  using start_snapshot [of nm s d s'] stop_snapshot [of nm s d s'] restart_snapshot [of nm s d s']
    status_snapshot [of nm s d s'] stop_returns [of nm s] restart_returns [of nm s]
  by blast

theorem snapshot_fields_and_messages_witness:
  "(\<exists>d s'. start ''whisper'' demo_running = (Inr d, s') \<and> status_fields d \<and>
      dom d = {''service'', ''running'', ''pid'', ''port'', ''uptime_seconds'', ''message''} \<and>
      d ''message'' = Some (PyStr ''Already running'')) \<and>
   (\<exists>d s'. stop ''whisper'' demo_running = Some (Inr d, s') \<and> status_fields d \<and>
      dom d = {''service'', ''running'', ''pid'', ''port'', ''uptime_seconds'', ''message''} \<and>
      d ''message'' = Some (PyStr ''Stopped'')) \<and>
   (\<exists>d s'. restart ''whisper'' demo_running = Some (Inr d, s') \<and> status_fields d \<and>
      dom d = {''service'', ''running'', ''pid'', ''port'', ''uptime_seconds'', ''message''} \<and>
      d ''message'' = Some (PyStr ''Started'')) \<and>
   (\<exists>d s'. status ''whisper'' demo_running = (Inr d, s') \<and> status_fields d \<and>
      dom d = {''service'', ''running'', ''pid'', ''port'', ''uptime_seconds''} \<and>
      d ''message'' = None)"
proof -
  obtain d1 s1 where a: "start ''whisper'' demo_running = (Inr d1, s1)"
      "d1 ''message'' = Some (PyStr ''Already running'')"
    using demo_start_again by blast
  obtain d2 s2 where b: "stop ''whisper'' demo_running = Some (Inr d2, s2)"
      "d2 ''message'' = Some (PyStr ''Stopped'')"
    using demo_stop by blast
  obtain d3 s3 where c: "restart ''whisper'' demo_running = Some (Inr d3, s3)"
      "d3 ''message'' = Some (PyStr ''Started'')"
    using demo_restart by blast
  obtain d4 s4 where d: "status ''whisper'' demo_running = (Inr d4, s4)"
    using demo_status by blast
  have 1: "status_fields d1 \<and>
      dom d1 = {''service'', ''running'', ''pid'', ''port'', ''uptime_seconds'', ''message''} \<and>
      (d1 ''message'' = Some (PyStr ''Already running'') \<or> d1 ''message'' = Some (PyStr ''Started''))"
    using snapshot_fields_and_messages [of "''whisper''" demo_running d1 s1, THEN conjunct1] a(1)
    by (rule mp)
  have 2: "status_fields d2 \<and>
      dom d2 = {''service'', ''running'', ''pid'', ''port'', ''uptime_seconds'', ''message''} \<and>
      (d2 ''message'' = Some (PyStr ''Not running'') \<or> d2 ''message'' = Some (PyStr ''Stopped''))"
    using snapshot_fields_and_messages [of "''whisper''" demo_running d2 s2,
        THEN conjunct2, THEN conjunct1] b(1)
    by (rule mp)
  have 3: "status_fields d3 \<and>
      dom d3 = {''service'', ''running'', ''pid'', ''port'', ''uptime_seconds'', ''message''} \<and>
      (d3 ''message'' = Some (PyStr ''Already running'') \<or> d3 ''message'' = Some (PyStr ''Started''))"
    using snapshot_fields_and_messages [of "''whisper''" demo_running d3 s3,
        THEN conjunct2, THEN conjunct2, THEN conjunct1] c(1)
    by (rule mp)
  have 4: "status_fields d4 \<and>
      dom d4 = {''service'', ''running'', ''pid'', ''port'', ''uptime_seconds''} \<and>
      d4 ''message'' = None"
    using snapshot_fields_and_messages [of "''whisper''" demo_running d4 s4,
        THEN conjunct2, THEN conjunct2, THEN conjunct2, THEN conjunct1] d
    by (rule mp)
  show ?thesis
  proof (intro conjI)
    show "\<exists>d s'. start ''whisper'' demo_running = (Inr d, s') \<and> status_fields d \<and>
      dom d = {''service'', ''running'', ''pid'', ''port'', ''uptime_seconds'', ''message''} \<and>
      d ''message'' = Some (PyStr ''Already running'')"
      using a 1 by (intro exI [of _ d1] exI [of _ s1]) (simp only: simp_thms)
    show "\<exists>d s'. stop ''whisper'' demo_running = Some (Inr d, s') \<and> status_fields d \<and>
      dom d = {''service'', ''running'', ''pid'', ''port'', ''uptime_seconds'', ''message''} \<and>
      d ''message'' = Some (PyStr ''Stopped'')"
      using b 2 by (intro exI [of _ d2] exI [of _ s2]) (simp only: simp_thms)
    show "\<exists>d s'. restart ''whisper'' demo_running = Some (Inr d, s') \<and> status_fields d \<and>
      dom d = {''service'', ''running'', ''pid'', ''port'', ''uptime_seconds'', ''message''} \<and>
      d ''message'' = Some (PyStr ''Started'')"
      using c 3 by (intro exI [of _ d3] exI [of _ s3]) (simp only: simp_thms)
    show "\<exists>d s'. status ''whisper'' demo_running = (Inr d, s') \<and> status_fields d \<and>
      dom d = {''service'', ''running'', ''pid'', ''port'', ''uptime_seconds''} \<and>
      d ''message'' = None"
      using d 4 by (intro exI [of _ d4] exI [of _ s4]) (simp only: simp_thms)
  qed
qed

subsection \<open>C8: the reader task and the process handle\<close>

text \<open>
  C8 on the code. whisper's process 0 has exited by itself while reader task 0, bound to
  it, has not finished. start then stores the new process 1 and the new reader task 1 in
  the record and leaves task 0 as it was: still reading process 0, neither cancelled nor
  finished; its next step appends the old process's output to the buffer that start has
  just cleared for the new run. stop on the running service, by contrast, does cancel the
  record's reader task.
\<close>

theorem start_leaves_prior_reader_active:
  "\<not> exited (procs demo_running 0) \<and>
   exited (procs demo_crashed 0) \<and>
   map_option process (services demo_crashed ''whisper'') = Some (Some 0) \<and>
   map_option reader_task (services demo_crashed ''whisper'') = Some (Some 0) \<and>
   task_state (tasks demo_crashed 0) = Reading 0 \<and>
   map_option process (services (snd (start ''whisper'' demo_crashed)) ''whisper'') = Some (Some 1) \<and>
   map_option reader_task (services (snd (start ''whisper'' demo_crashed)) ''whisper'') = Some (Some 1) \<and>
   task_state (tasks (snd (start ''whisper'' demo_crashed)) 1) = Created \<and>
   task_state (tasks (snd (start ''whisper'' demo_crashed)) 0) = Reading 0 \<and>
   \<not> done_task (snd (start ''whisper'' demo_crashed)) 0 \<and>
   map_option logs (services (snd (start ''whisper'' demo_crashed)) ''whisper'') = Some [] \<and>
   map_option logs (services (log_reader_step 0 (snd (start ''whisper'' demo_crashed))) ''whisper'') =
     Some [''ready''] \<and>
   task_after 0 (stop ''whisper'' (log_reader_step 0 demo_running)) = Some Cancelled"
  by (simp add: task_after_def demo_crashed_eq demo_running_eq start_def stop_def get_def SERVICE_CONFIG_def
      demo_proc_def running_def set_svc_def Popen_def create_task_def with_message_def
      status_dict_def done_task_def cancel_def send_signal_def wait_for_def
      log_reader_step_def deque_append_def LOG_BUFFER_SIZE_def rstrip_nl_def Let_def)

subsection \<open>C9: a failed spawn\<close>

text \<open>
  C9. When the record of a known service is not running and \<^verbatim>\<open>Popen\<close> raises on the
  service's command line, start surfaces that error. The state it leaves differs from the
  one before only in the record's log buffer, which has been cleared: the process handle
  and the reader task of the record are the old ones, no process and no task has been
  created, and status then reports running false.
\<close>

theorem start_spawn_failure:
  assumes cfg: "SERVICE_CONFIG nm = Some cfg"
    and svc0: "svc0 = (case services s nm of None \<Rightarrow> ManagedService nm | Some svc \<Rightarrow> svc)"
    and wf: "name svc0 = nm"
    and nr: "\<not> running s svc0"
    and l: "launch s [uvicorn cfg, app cfg, ''--host'', ''0.0.0.0'', ''--port'', str (port cfg)]
              (cwd cfg) = None"
    and s': "s' = s\<lparr>services := (services s)(nm \<mapsto> svc0\<lparr>logs := []\<rparr>)\<rparr>"
  shows "start nm s = (Inl OSError, s') \<and>
         map_option process (services s' nm) = Some (process svc0) \<and>
         map_option reader_task (services s' nm) = Some (reader_task svc0) \<and>
         tasks s' = tasks s \<and> next_task s' = next_task s \<and>
         procs s' = procs s \<and> next_handle s' = next_handle s \<and> events s' = events s \<and>
         (\<exists>d. status nm s' = (Inr d, s') \<and> d ''running'' = Some (PyBool False))"
proof -
  have k: "SERVICE_CONFIG nm \<noteq> None" using cfg by simp
  obtain s1 where g: "get nm s = (Inr svc0, s1)" and s1: "s1 = set_svc nm svc0 s"
  proof (cases "services s nm")
    case None
    with that svc0 get_fresh [OF k None] show ?thesis by simp
  next
    case (Some svc)
    with that svc0 get_known [OF k Some] show ?thesis by (simp add: set_svc_def fun_upd_idem)
  qed
  have nr1: "\<not> running s1 svc0" using nr by (simp add: s1 running_def set_svc_def split: option.splits)
  have l1: "launch s1 [uvicorn cfg, app cfg, ''--host'', ''0.0.0.0'', ''--port'', str (port cfg)]
              (cwd cfg) = None" using l by (simp add: s1 set_svc_def)
  have e: "set_svc nm (svc0\<lparr>logs := []\<rparr>) s1 = s'"
    by (simp add: s1 s' set_svc_def)
  have st: "start nm s = (Inl OSError, s')"
    using start_spawn_fails [OF g nr1 cfg l1] e by simp
  have reg: "services s' nm = Some (svc0\<lparr>logs := []\<rparr>)" by (simp add: s')
  have g': "get nm s' = (Inr (svc0\<lparr>logs := []\<rparr>), s')" using k reg by (rule get_known)
  have c': "SERVICE_CONFIG (name (svc0\<lparr>logs := []\<rparr>)) = Some cfg" using cfg wf by simp
  have nr': "\<not> running s' (svc0\<lparr>logs := []\<rparr>)" using nr by (simp add: s' running_def split: option.splits)
  have "status nm s' = (status_dict s' (svc0\<lparr>logs := []\<rparr>), s')"
    by (simp add: status_def g')
  moreover have "\<exists>d. status_dict s' (svc0\<lparr>logs := []\<rparr>) = Inr d \<and> d ''running'' = Some (PyBool False)"
    using c' nr' by (simp add: status_dict_def)
  ultimately have q: "\<exists>d. status nm s' = (Inr d, s') \<and> d ''running'' = Some (PyBool False)"
    by auto
  from st reg q show ?thesis by (simp add: s')
qed

theorem start_spawn_failure_witness:
  "SERVICE_CONFIG ''tts'' \<noteq> None \<and>
   \<not> running (initial (\<lambda>cmd dir. None) 1000) (ManagedService ''tts'') \<and>
   fst (start ''tts'' (initial (\<lambda>cmd dir. None) 1000)) = Inl OSError \<and>
   map_option process (services (snd (start ''tts'' (initial (\<lambda>cmd dir. None) 1000))) ''tts'') =
     Some None \<and>
   map_option reader_task (services (snd (start ''tts'' (initial (\<lambda>cmd dir. None) 1000))) ''tts'') =
     Some None \<and>
   events (snd (start ''tts'' (initial (\<lambda>cmd dir. None) 1000))) = [] \<and>
   next_task (snd (start ''tts'' (initial (\<lambda>cmd dir. None) 1000))) = 0"
proof -
  let ?i = "initial (\<lambda>cmd dir. None) 1000"
  let ?c = "\<lparr>cwd = ''tts'', uvicorn = ''tts/venv/Scripts/uvicorn.exe'', app = ''server:app'',
            port = 8200\<rparr>"
  have c: "SERVICE_CONFIG ''tts'' = Some ?c" by (simp add: SERVICE_CONFIG_def)
  have v: "ManagedService ''tts'' =
      (case services ?i ''tts'' of None \<Rightarrow> ManagedService ''tts'' | Some svc \<Rightarrow> svc)"
    by (simp add: initial_def)
  have n: "name (ManagedService ''tts'') = ''tts''" by (simp add: ManagedService_def)
  have r: "\<not> running ?i (ManagedService ''tts'')" by (simp add: running_def ManagedService_def)
  have l: "launch ?i [uvicorn ?c, app ?c, ''--host'', ''0.0.0.0'', ''--port'', str (port ?c)]
              (cwd ?c) = None" by (simp add: initial_def)
  show ?thesis
    using start_spawn_failure [OF c v n r l refl] c r
    by (simp add: initial_def ManagedService_def)
qed

subsection \<open>C10: the queries\<close>

text \<open>
  C10. When the record of \<open>nm\<close> already exists, status and view\_logs return the state
  exactly as it was; in particular the record, with its process handle, log buffer, start
  time and reader task, is the one that was there before the call.
\<close>

theorem queries_leave_record_unchanged:
  assumes "services s nm = Some svc"
  shows "snd (status nm s) = s \<and> snd (view_logs nm n s) = s \<and>
         services (snd (status nm s)) nm = Some svc \<and>
         services (snd (view_logs nm n s)) nm = Some svc"
proof (cases "SERVICE_CONFIG nm")
  case None
  with assms show ?thesis by (simp add: status_def view_logs_def get_unknown)
next
  case (Some cfg)
  then have "get nm s = (Inr svc, s)" using assms by (simp add: get_known)
  with assms show ?thesis by (simp add: status_def view_logs_def Let_def)
qed

theorem queries_leave_record_unchanged_witness:
  "services demo_running ''whisper'' =
     Some \<lparr>name = ''whisper'', process = Some 0, logs = [], started_at = Some 1000,
           reader_task = Some 0\<rparr> \<and>
   snd (status ''whisper'' demo_running) = demo_running \<and>
   snd (view_logs ''whisper'' 50 demo_running) = demo_running \<and>
   services (snd (status ''whisper'' demo_running)) ''whisper'' =
     Some \<lparr>name = ''whisper'', process = Some 0, logs = [], started_at = Some 1000,
           reader_task = Some 0\<rparr>"
  using queries_leave_record_unchanged [OF demo_running_fields(1), of 50] demo_running_fields(1)
  by simp

end
